theory Spec2Isabelle
  imports Complex_Main "HOL-Library.Sublist"
begin

section \<open>Strings\<close>

text \<open>
  A JavaScript string is modelled as a \<^typ>\<open>string\<close>, each character standing for one
  code unit below 256 (the Latin-1 block). On that block \<^verbatim>\<open>toLowerCase\<close> maps
  \<^verbatim>\<open>A-Z\<close> and the accented capitals \<^verbatim>\<open>0xC0-0xDE\<close> (without the multiplication sign
  \<^verbatim>\<open>0xD7\<close>) to the code unit 32 above, and leaves every other code unit alone.
\<close>

definition lowerChar :: "char \<Rightarrow> char" where
  "lowerChar c =
     (let n = (of_char c :: nat)
      in if (65 \<le> n \<and> n \<le> 90) \<or> (192 \<le> n \<and> n \<le> 222 \<and> n \<noteq> 215)
         then char_of (n + 32) else c)"

definition toLowerCase :: "string \<Rightarrow> string" where
  "toLowerCase s = map lowerChar s"

text \<open>\<^verbatim>\<open>s.startsWith(p)\<close> and \<^verbatim>\<open>s.includes(p)\<close>: the pattern is looked for at every
  position of the text, from the left.\<close>

fun startsWith :: "string \<Rightarrow> string \<Rightarrow> bool" where
  "startsWith s [] = True"
| "startsWith [] (p # ps) = False"
| "startsWith (c # cs) (p # ps) = (c = p \<and> startsWith cs ps)"

fun includes_str :: "string \<Rightarrow> string \<Rightarrow> bool" where
  "includes_str [] p = (p = [])"
| "includes_str (c # cs) p = (startsWith (c # cs) p \<or> includes_str cs p)"

section \<open>Model selection (services/llmServices.js)\<close>

definition complexPatterns :: "string list" where
  "complexPatterns =
     [''analyze'', ''compare'', ''calculate'', ''process data'', ''machine learning'',
      ''ai'', ''complex logic'', ''multiple conditions'', ''workflow'', ''integration'',
      ''transform'', ''parse'', ''extract and process'']"

definition easyPatterns :: "string list" where
  "easyPatterns =
     [''send email'', ''post message'', ''simple notification'', ''basic alert'',
      ''reminder'', ''daily message'', ''weekly update'', ''fetch data'']"

definition complexScore :: "string \<Rightarrow> nat" where
  "complexScore taskDescription =
     length (filter (\<lambda>pattern. includes_str (toLowerCase taskDescription) pattern) complexPatterns)"

definition easyScore :: "string \<Rightarrow> nat" where
  "easyScore taskDescription =
     length (filter (\<lambda>pattern. includes_str (toLowerCase taskDescription) pattern) easyPatterns)"

definition analyzeComplexity :: "string \<Rightarrow> string" where
  "analyzeComplexity taskDescription =
     (if complexScore taskDescription \<ge> 2 then ''complex''
      else if easyScore taskDescription \<ge> 1 \<and> complexScore taskDescription = 0 then ''easy''
      else ''intermediate'')"

definition selectModel :: "string \<Rightarrow> string" where
  "selectModel taskDescription =
     (let complexity = analyzeComplexity taskDescription
      in if complexity = ''easy'' then ''gemini-2.5-flash''
         else if complexity = ''intermediate'' then ''gemini-2.5-flash''
         else if complexity = ''complex'' then ''gemini-2.5-pro''
         else ''gemini-2.5-flash'')"


text \<open>
  The decision rule as the specification words it. Lower-casing is given by the table of
  the capital letters and their small counterparts (on the code units below 256: the
  letters \<^verbatim>\<open>A-Z\<close> and the accented capitals), every other character staying as it is; a
  keyword matches when it occurs as a contiguous part of the lower-cased text; then the
  three-way rule on the two counts.
\<close>

definition capitalLetters :: string where
  "capitalLetters =
     ''ABCDEFGHIJKLMNOPQRSTUVWXYZ'' @ map char_of ([192..<215] @ [216..<223] :: nat list)"

definition smallLetters :: string where
  "smallLetters =
     ''abcdefghijklmnopqrstuvwxyz'' @ map char_of ([224..<247] @ [248..<255] :: nat list)"

text \<open>The code units of the capital letters, for the proofs.\<close>

definition capitalCodes :: "nat list" where
  "capitalCodes = [65..<91] @ [192..<215] @ [216..<223]"

definition spec_lowerChar :: "char \<Rightarrow> char" where
  "spec_lowerChar c =
     (case map_of (zip capitalLetters smallLetters) c of None \<Rightarrow> c | Some small \<Rightarrow> small)"

definition spec_lowerCase :: "string \<Rightarrow> string" where
  "spec_lowerCase text = map spec_lowerChar text"

definition spec_matchCount :: "string list \<Rightarrow> string \<Rightarrow> nat" where
  "spec_matchCount keywords text =
     length (filter (\<lambda>k. sublist k (spec_lowerCase text)) keywords)"

definition spec_tier :: "string \<Rightarrow> string" where
  "spec_tier text =
     (let c = spec_matchCount complexPatterns text; e = spec_matchCount easyPatterns text
      in if c \<ge> 2 then ''complex'' else if e \<ge> 1 \<and> c = 0 then ''easy'' else ''intermediate'')"

section \<open>The LLM client (services/llmServices.js)\<close>

text \<open>
  A thrown JavaScript error: its message and, when it carries one, its \<^verbatim>\<open>status\<close> (the
  HTTP status of a failed request). \<^verbatim>\<open>new Error(msg)\<close> has no status.
\<close>

datatype js_error = JsError (message: string) (err_status: "nat option")

text \<open>
  The hosted model is outside the program. \<^verbatim>\<open>model.generateContent(prompt)\<close> followed by
  \<^verbatim>\<open>response.text()\<close> is a request that either throws or yields the raw text; the prompt
  is a fixed text around the task description, so the outcome of a request is given by how
  many requests were made before it, the model name and the task description.
\<close>

type_synonym gemini_api = "nat \<Rightarrow> string \<Rightarrow> string \<Rightarrow> js_error + string"

text \<open>What a call did: its outcome (an error thrown, or the value returned, \<open>None\<close> for
  \<^verbatim>\<open>undefined\<close>), the number of requests sent and the milliseconds slept.\<close>

record call_report =
  outcome :: "js_error + string option"
  requests :: nat
  slept :: nat

text \<open>
  The class body of \<^verbatim>\<open>LLMService\<close> defines \<^verbatim>\<open>callGemini\<close> twice. The first definition
  (lines 13-39) is the loop \<^verbatim>\<open>for (attempt = 1; attempt <= retries; attempt++)\<close> with
  \<^verbatim>\<open>retries = 3\<close> and \<^verbatim>\<open>delay = 30000\<close> as defaults: a request that throws with status 503
  before the last attempt is followed by a sleep and the next attempt, every other throw is
  wrapped and rethrown, and a loop that ends without returning yields \<^verbatim>\<open>undefined\<close>.
\<close>

function callGemini_loop ::
  "gemini_api \<Rightarrow> string \<Rightarrow> string \<Rightarrow> nat \<Rightarrow> nat \<Rightarrow> nat \<Rightarrow> nat \<Rightarrow> nat \<Rightarrow> call_report" where
  "callGemini_loop api taskDescription modelName retries delay attempt sent waited =
     (if attempt \<le> retries then
        (case api sent modelName taskDescription of
           Inr text \<Rightarrow> \<lparr>outcome = Inr (Some text), requests = sent + 1, slept = waited\<rparr>
         | Inl error \<Rightarrow>
             if err_status error = Some 503 \<and> attempt < retries
             then callGemini_loop api taskDescription modelName retries delay
                    (attempt + 1) (sent + 1) (waited + delay)
             else \<lparr>outcome = Inl (JsError (''Failed to call Gemini API: '' @ message error) None),
                    requests = sent + 1, slept = waited\<rparr>)
      else \<lparr>outcome = Inr None, requests = sent, slept = waited\<rparr>)"
  by pat_completeness auto
termination
  by (relation "measure (\<lambda>(api, td, mn, retries, delay, attempt, sent, waited). Suc retries - attempt)")
    auto

definition callGemini_first :: "gemini_api \<Rightarrow> string \<Rightarrow> string \<Rightarrow> call_report" where
  "callGemini_first api taskDescription modelName =
     callGemini_loop api taskDescription modelName 3 30000 1 0 0"

text \<open>The second definition (lines 161-180): one request, a throw is wrapped and rethrown.\<close>

definition callGemini_second :: "gemini_api \<Rightarrow> string \<Rightarrow> string \<Rightarrow> call_report" where
  "callGemini_second api taskDescription modelName =
     (case api 0 modelName taskDescription of
        Inr text \<Rightarrow> \<lparr>outcome = Inr (Some text), requests = 1, slept = 0\<rparr>
      | Inl error \<Rightarrow>
          \<lparr>outcome = Inl (JsError (''Failed to call Gemini API: '' @ message error) None),
           requests = 1, slept = 0\<rparr>)"

text \<open>
  A class body that defines one method name twice keeps the later definition: the method
  \<^verbatim>\<open>callGemini\<close> of an \<^verbatim>\<open>LLMService\<close> is the last of its definitions in source order.
\<close>

definition callGemini_definitions :: "(gemini_api \<Rightarrow> string \<Rightarrow> string \<Rightarrow> call_report) list" where
  "callGemini_definitions = [callGemini_first, callGemini_second]"

definition callGemini :: "gemini_api \<Rightarrow> string \<Rightarrow> string \<Rightarrow> call_report" where
  "callGemini = last callGemini_definitions"

text \<open>The scenario of the specification: the model is overloaded (status 503) on the first
  two requests and answers the third.\<close>

definition overloadedTwice :: gemini_api where
  "overloadedTwice sent modelName taskDescription =
     (if sent < 2 then Inl (JsError ''The model is overloaded'' (Some 503))
      else Inr ''the answer'')"

section \<open>The response parser (services/llmServices.js)\<close>

subsection \<open>JSON values\<close>

text \<open>
  A value as \<^verbatim>\<open>JSON.parse\<close> yields it. A number stands for the value of its double (both
  zeros are 0; \<^verbatim>\<open>JSON.parse\<close> yields no NaN). An object is the list of its own properties
  in insertion order, each key once.
\<close>

datatype json =
    JNull
  | JBool bool
  | JNumber real
  | JString string
  | JArray "json list"
  | JObject "(string \<times> json) list"

text \<open>
  Reading a property \<^verbatim>\<open>v.key\<close>: a \<^verbatim>\<open>TypeError\<close> on \<^verbatim>\<open>null\<close>, the own property of an
  object, and \<^verbatim>\<open>undefined\<close> (\<open>None\<close>) otherwise. It is used at the keys \<^verbatim>\<open>automatable\<close>,
  \<^verbatim>\<open>workflow\<close>, \<^verbatim>\<open>reason\<close> and \<^verbatim>\<open>id\<close> only, which no prototype of a boolean, number, string,
  array or object defines.
\<close>

definition getProp :: "json \<Rightarrow> string \<Rightarrow> js_error + json option" where
  "getProp v key =
     (case v of
        JNull \<Rightarrow> Inl (JsError (''Cannot read properties of null (reading '' @ key @ '')'') None)
      | JObject props \<Rightarrow> Inr (map_of props key)
      | _ \<Rightarrow> Inr None)"

text \<open>JavaScript truthiness of a value that may be \<^verbatim>\<open>undefined\<close>.\<close>

fun truthy :: "json option \<Rightarrow> bool" where
  "truthy None = False"
| "truthy (Some JNull) = False"
| "truthy (Some (JBool b)) = b"
| "truthy (Some (JNumber n)) = (n \<noteq> 0)"
| "truthy (Some (JString s)) = (s \<noteq> [])"
| "truthy (Some (JArray xs)) = True"
| "truthy (Some (JObject props)) = True"

subsection \<open>Cleaning the raw text\<close>

definition fence :: string where
  "fence = [CHR 0x60, CHR 0x60, CHR 0x60]"

definition dropNewline :: "string \<Rightarrow> string" where
  "dropNewline s = (case s of [] \<Rightarrow> [] | c # cs \<Rightarrow> if c = CHR 0x0A then cs else c # cs)"

text \<open>
  \<^verbatim>\<open>s.replace(/<marker>\n?/g, '')\<close> for a literal marker: from the left, every occurrence
  of the marker is removed together with a line feed that follows it directly, and the scan
  goes on behind what was removed.
\<close>

function removeMarker :: "string \<Rightarrow> string \<Rightarrow> string" where
  "removeMarker marker [] = []"
| "removeMarker marker (c # cs) =
     (if marker \<noteq> [] \<and> startsWith (c # cs) marker
      then removeMarker marker (dropNewline (drop (length marker) (c # cs)))
      else c # removeMarker marker cs)"
  by pat_completeness auto
termination
proof (relation "measure (\<lambda>(marker, s). length s)")
  fix marker :: string and c :: char and cs :: string
  assume "marker \<noteq> [] \<and> startsWith (c # cs) marker"
  then have "length (drop (length marker) (c # cs)) < length (c # cs)"
    by (cases marker) simp_all
  moreover have "length (dropNewline (drop (length marker) (c # cs)))
      \<le> length (drop (length marker) (c # cs))"
    by (cases "drop (length marker) (c # cs)") (simp_all add: dropNewline_def)
  ultimately have "length (dropNewline (drop (length marker) (c # cs))) < length (c # cs)"
    by linarith
  then show "((marker, dropNewline (drop (length marker) (c # cs))), (marker, c # cs))
               \<in> measure (\<lambda>(marker, s). length s)"
    by simp
qed simp_all

text \<open>\<^verbatim>\<open>s.trim()\<close>: the white space and line terminators among the code units below 256.\<close>

definition isSpace :: "char \<Rightarrow> bool" where
  "isSpace c = ((of_char c :: nat) \<in> {9, 10, 11, 12, 13, 32, 160})"

definition trim :: "string \<Rightarrow> string" where
  "trim s = rev (dropWhile isSpace (rev (dropWhile isSpace s)))"

text \<open>
  \<^verbatim>\<open>s.match(/\{[\s\S]*\}/)\<close>: the leftmost match starts at the first opening brace and,
  the star being greedy, ends at the last closing brace behind it; there is no match when no
  closing brace stands behind the first opening one.
\<close>

definition matchBraces :: "string \<Rightarrow> string option" where
  "matchBraces s =
     (case dropWhile (\<lambda>c. c \<noteq> CHR 0x7B) s of
        [] \<Rightarrow> None
      | b # rest \<Rightarrow>
          (case dropWhile (\<lambda>c. c \<noteq> CHR 0x7D) (rev rest) of
             [] \<Rightarrow> None
           | r # rs \<Rightarrow> Some (b # rev (r # rs))))"

text \<open>The two \<^verbatim>\<open>replace\<close> calls and the \<^verbatim>\<open>trim\<close>, then the \<^verbatim>\<open>match\<close>: the text handed
  to \<^verbatim>\<open>JSON.parse\<close> is the match when there is one and the stripped text otherwise.\<close>

definition stripFences :: "string \<Rightarrow> string" where
  "stripFences response =
     trim (removeMarker fence (removeMarker (fence @ ''json'') response))"

definition cleanResponse :: "string \<Rightarrow> string" where
  "cleanResponse response =
     (let cleanedResponse = stripFences response
      in case matchBraces cleanedResponse of
           Some jsonMatch \<Rightarrow> jsonMatch
         | None \<Rightarrow> cleanedResponse)"

subsection \<open>Validation\<close>

text \<open>
  \<^verbatim>\<open>JSON.parse\<close> belongs to the runtime: it is a parameter, a function from the text to the
  value or to the \<^verbatim>\<open>SyntaxError\<close> it throws. Every throw inside the \<^verbatim>\<open>try\<close> block is caught
  and rethrown as the one error \<^verbatim>\<open>Invalid JSON response from Gemini: <message>\<close>.
\<close>

type_synonym json_parser = "string \<Rightarrow> js_error + json"

definition validateParsed :: "json \<Rightarrow> js_error + json" where
  "validateParsed parsed =
     (case getProp parsed ''automatable'' of
        Inl typeError \<Rightarrow> Inl typeError
      | Inr (Some (JBool automatable)) \<Rightarrow>
          (case getProp parsed ''workflow'' of
             Inl typeError \<Rightarrow> Inl typeError
           | Inr workflow \<Rightarrow>
               if automatable \<and> \<not> truthy workflow
               then Inl (JsError ''Invalid response format: missing workflow for automatable task'' None)
               else
                 (case getProp parsed ''reason'' of
                    Inl typeError \<Rightarrow> Inl typeError
                  | Inr reason \<Rightarrow>
                      if \<not> automatable \<and> \<not> truthy reason
                      then Inl (JsError
                        ''Invalid response format: missing reason for non-automatable task'' None)
                      else Inr parsed))
      | Inr _ \<Rightarrow> Inl (JsError ''Invalid response format: missing automatable field'' None))"

definition parseAndValidateResponse :: "json_parser \<Rightarrow> string \<Rightarrow> js_error + json" where
  "parseAndValidateResponse JSON_parse response =
     (case (case JSON_parse (cleanResponse response) of
              Inl syntaxError \<Rightarrow> Inl syntaxError
            | Inr parsed \<Rightarrow> validateParsed parsed) of
        Inl error \<Rightarrow> Inl (JsError (''Invalid JSON response from Gemini: '' @ message error) None)
      | Inr parsed \<Rightarrow> Inr parsed)"

subsection \<open>The conditions of the claims on a parsed value\<close>

text \<open>The own property of a parsed value: none on a value that is not an object.\<close>

definition ownProp :: "json \<Rightarrow> string \<Rightarrow> json option" where
  "ownProp v key = (case v of JObject props \<Rightarrow> map_of props key | _ \<Rightarrow> None)"

text \<open>
  The decision is refused, read by truthiness: there is no boolean \<^verbatim>\<open>automatable\<close>, or it is
  true and \<^verbatim>\<open>workflow\<close> is absent or falsy, or it is false and \<^verbatim>\<open>reason\<close> is absent or
  falsy.
\<close>

definition refusedDecision :: "json \<Rightarrow> bool" where
  "refusedDecision v =
     (case ownProp v ''automatable'' of
        Some (JBool automatable) \<Rightarrow>
          if automatable then \<not> truthy (ownProp v ''workflow'')
          else \<not> truthy (ownProp v ''reason'')
      | _ \<Rightarrow> True)"

text \<open>
  The same read by presence, as the specification words it: there is no boolean
  \<^verbatim>\<open>automatable\<close>, or it is true and there is no \<^verbatim>\<open>workflow\<close> field, or it is false and there
  is no \<^verbatim>\<open>reason\<close> field.
\<close>

definition spec_refusedDecision :: "json \<Rightarrow> bool" where
  "spec_refusedDecision v =
     (case ownProp v ''automatable'' of
        Some (JBool automatable) \<Rightarrow>
          if automatable then ownProp v ''workflow'' = None
          else ownProp v ''reason'' = None
      | _ \<Rightarrow> True)"

text \<open>The span of a text from its first opening brace to its last closing brace.\<close>

definition braceSpan :: "string \<Rightarrow> string \<Rightarrow> bool" where
  "braceSpan s m =
     (\<exists>pre body post. s = pre @ m @ post \<and> m = CHR ''{'' # body @ [CHR ''}''] \<and>
        CHR ''{'' \<notin> set pre \<and> CHR ''}'' \<notin> set post)"

subsection \<open>A reader for concrete JSON texts\<close>

text \<open>
  For the concrete inputs below, \<^verbatim>\<open>JSON.parse\<close> is instantiated by a reader of the JSON
  grammar without string escapes, fractions and exponents (it rejects a text that uses one):
  white space, the literals, integers, strings, arrays and objects; a key that occurs twice
  keeps its place and takes the later value. The first argument bounds the nesting and the
  number of members read; the length of the text is enough.
\<close>

definition isJsonSpace :: "char \<Rightarrow> bool" where
  "isJsonSpace c = (c = CHR '' '' \<or> c = CHR 0x09 \<or> c = CHR 0x0A \<or> c = CHR 0x0D)"

definition skipSpace :: "string \<Rightarrow> string" where
  "skipSpace s = dropWhile isJsonSpace s"

definition isDigit :: "char \<Rightarrow> bool" where
  "isDigit c = (48 \<le> (of_char c :: nat) \<and> (of_char c :: nat) \<le> 57)"

definition digitsValue :: "string \<Rightarrow> nat" where
  "digitsValue ds = foldl (\<lambda>n d. 10 * n + (of_char d - 48)) 0 ds"

fun readString :: "string \<Rightarrow> (string \<times> string) option" where
  "readString [] = None"
| "readString (c # cs) =
     (if c = CHR 0x22 then Some ([], cs)
      else if c = CHR 0x5C \<or> (of_char c :: nat) < 32 then None
      else (case readString cs of
              None \<Rightarrow> None
            | Some (str, rest) \<Rightarrow> Some (c # str, rest)))"

definition readNumber :: "string \<Rightarrow> (json \<times> string) option" where
  "readNumber s =
     (let negative = startsWith s ''-'';
          body = (if negative then tl s else s);
          ds = takeWhile isDigit body;
          rest = dropWhile isDigit body
      in if ds = [] \<or> (1 < length ds \<and> startsWith ds ''0'')
            \<or> startsWith rest ''.'' \<or> startsWith rest ''e'' \<or> startsWith rest ''E''
         then None
         else Some (JNumber (if negative then - real (digitsValue ds) else real (digitsValue ds)),
                    rest))"

fun setProp :: "string \<Rightarrow> json \<Rightarrow> (string \<times> json) list \<Rightarrow> (string \<times> json) list" where
  "setProp k v [] = [(k, v)]"
| "setProp k v ((k', v') # props) =
     (if k = k' then (k, v) # props else (k', v') # setProp k v props)"

fun readValue :: "nat \<Rightarrow> string \<Rightarrow> (json \<times> string) option"
  and readMembers :: "nat \<Rightarrow> (string \<times> json) list \<Rightarrow> string \<Rightarrow> (json \<times> string) option"
  and readElements :: "nat \<Rightarrow> json list \<Rightarrow> string \<Rightarrow> (json \<times> string) option" where
  "readValue 0 s = None"
| "readValue (Suc n) s =
     (case skipSpace s of
        [] \<Rightarrow> None
      | c # cs \<Rightarrow>
          if c = CHR ''{'' then
            (case skipSpace cs of
               [] \<Rightarrow> None
             | d # ds \<Rightarrow> if d = CHR ''}'' then Some (JObject [], ds) else readMembers n [] cs)
          else if c = CHR ''['' then
            (case skipSpace cs of
               [] \<Rightarrow> None
             | d # ds \<Rightarrow> if d = CHR '']'' then Some (JArray [], ds) else readElements n [] cs)
          else if c = CHR 0x22 then
            (case readString cs of
               None \<Rightarrow> None
             | Some (str, rest) \<Rightarrow> Some (JString str, rest))
          else if startsWith (c # cs) ''true'' then Some (JBool True, drop 4 (c # cs))
          else if startsWith (c # cs) ''false'' then Some (JBool False, drop 5 (c # cs))
          else if startsWith (c # cs) ''null'' then Some (JNull, drop 4 (c # cs))
          else readNumber (c # cs))"
| "readMembers 0 props s = None"
| "readMembers (Suc n) props s =
     (case skipSpace s of
        [] \<Rightarrow> None
      | c # cs \<Rightarrow>
          if c = CHR 0x22 then
            (case readString cs of
               None \<Rightarrow> None
             | Some (key, rest) \<Rightarrow>
                 (case skipSpace rest of
                    [] \<Rightarrow> None
                  | d # ds \<Rightarrow>
                      if d = CHR '':'' then
                        (case readValue n ds of
                           None \<Rightarrow> None
                         | Some (v, rest') \<Rightarrow>
                             (case skipSpace rest' of
                                [] \<Rightarrow> None
                              | e # es \<Rightarrow>
                                  if e = CHR '','' then readMembers n (setProp key v props) es
                                  else if e = CHR ''}'' then Some (JObject (setProp key v props), es)
                                  else None))
                      else None))
          else None)"
| "readElements 0 elems s = None"
| "readElements (Suc n) elems s =
     (case readValue n s of
        None \<Rightarrow> None
      | Some (v, rest) \<Rightarrow>
          (case skipSpace rest of
             [] \<Rightarrow> None
           | e # es \<Rightarrow>
               if e = CHR '','' then readElements n (elems @ [v]) es
               else if e = CHR '']'' then Some (JArray (elems @ [v]), es)
               else None))"

definition readJson :: json_parser where
  "readJson s =
     (case readValue (Suc (length s)) s of
        None \<Rightarrow> Inl (JsError ''Unexpected token in JSON'' None)
      | Some (v, rest) \<Rightarrow>
          if skipSpace rest = [] then Inr v else Inl (JsError ''Unexpected token in JSON'' None))"

text \<open>The texts of the examples; \<open>quoted\<close> puts a string between double quotes.\<close>

definition quoted :: "string \<Rightarrow> string" where
  "quoted s = CHR 0x22 # s @ [CHR 0x22]"

definition workflowNullText :: string where
  "workflowNullText =
     ''{'' @ quoted ''automatable'' @ '': true, '' @ quoted ''workflow'' @ '': null}''"

definition reasonEmptyText :: string where
  "reasonEmptyText =
     ''{'' @ quoted ''automatable'' @ '': false, '' @ quoted ''reason'' @ '': '' @ quoted [] @ ''}''"

definition reasonGivenText :: string where
  "reasonGivenText =
     ''{'' @ quoted ''automatable'' @ '': false, '' @ quoted ''reason'' @ '': ''
       @ quoted ''needs a human'' @ ''}''"

definition fencedReasonText :: string where
  "fencedReasonText =
     ''Here you go: '' @ fence @ ''json'' @ [CHR 0x0A] @ reasonGivenText @ [CHR 0x0A] @ fence"

section \<open>The task store\<close>

text \<open>
  The result column holds a message or the \<^verbatim>\<open>JSON.stringify\<close> of one of three objects; it
  is modelled by the object that was written. \<^verbatim>\<open>timestamp\<close> is the
  \<^verbatim>\<open>new Date().toISOString()\<close> of the moment of writing, \<^verbatim>\<open>model\<close> is absent when
  \<^verbatim>\<open>geminiResult.model\<close> is \<^verbatim>\<open>undefined\<close>, and the trace of an error payload is the
  \<^verbatim>\<open>stack\<close> of the error caught, given by that error.
\<close>

datatype result_payload =
    CompletedPayload (gemini_response: json) (provider: string) (model: "string option")
      (n8n_workflow_id: "json option") (timestamp: string)
  | DeclinedPayload (gemini_response: json) (provider: string) (model: "string option")
      (reason: json) (timestamp: string)
  | ErrorPayload (error_message: string) (stack_of: js_error) (timestamp: string)
  | CreationFailure string

text \<open>A row of the task table (the two time columns, which no claim reads, are left out).\<close>

record task =
  task_id :: nat
  email :: string
  task_text :: string
  status :: string
  result :: "result_payload option"
  task_type :: "string option"
  userId :: "nat option"

text \<open>The table with its auto-increment counter.\<close>

record store =
  tasks :: "nat \<rightharpoonup> task"
  nextId :: nat

definition emptyStore :: store where
  "emptyStore = \<lparr>tasks = Map.empty, nextId = 1\<rparr>"

text \<open>\<^verbatim>\<open>prisma.task.create\<close>: the new row gets the next id.\<close>

definition prismaCreate :: "store \<Rightarrow> string \<Rightarrow> string \<Rightarrow> nat option \<Rightarrow> task \<times> store" where
  "prismaCreate db mail text uid =
     (let newTask = \<lparr>task_id = nextId db, email = mail, task_text = text, status = ''pending'',
                      result = None, task_type = Some ''gemini_processing'', userId = uid\<rparr>
      in (newTask, db\<lparr>tasks := (tasks db)(nextId db \<mapsto> newTask), nextId := nextId db + 1\<rparr>))"

text \<open>\<^verbatim>\<open>prisma.task.update\<close>: it throws (code P2025) when no row has the id.\<close>

definition prismaUpdate :: "store \<Rightarrow> nat \<Rightarrow> (task \<Rightarrow> task) \<Rightarrow> js_error + task \<times> store" where
  "prismaUpdate db i change =
     (case tasks db i of
        None \<Rightarrow> Inl (JsError ''Record to update not found.'' None)
      | Some t \<Rightarrow> Inr (change t, db\<lparr>tasks := (tasks db)(i \<mapsto> change t)\<rparr>))"

definition findUnique :: "store \<Rightarrow> nat \<Rightarrow> task option" where
  "findUnique db i = tasks db i"

section \<open>The workflow dispatcher\<close>

text \<open>
  The automation engine is outside the program. A request to it is one of the two POSTs the
  dispatcher sends, each with the API key in its \<^verbatim>\<open>X-Api-Key\<close> header: the creation of a
  workflow with its body, and the execution of the workflow whose identifier was put into the
  URL (\<open>None\<close> for \<^verbatim>\<open>undefined\<close>). The engine answers a request with the \<^verbatim>\<open>data\<close> of the
  response or with the error the HTTP client throws.
\<close>

datatype n8n_request =
    CreateWorkflow string json
  | ExecuteWorkflow string "json option"

type_synonym n8n_engine = "n8n_request \<Rightarrow> js_error + json"

text \<open>What a dispatch did: the error thrown or the \<^verbatim>\<open>workflowId\<close> returned, and the requests
  sent, in order.\<close>

record dispatch_report =
  dispatched :: "js_error + json option"
  sent :: "n8n_request list"

text \<open>The decimal text of an index, for the keys that spreading an array or a string makes.\<close>

fun showNat :: "nat \<Rightarrow> string" where
  "showNat n =
     (if n < 10 then [char_of (48 + n)] else showNat (n div 10) @ [char_of (48 + n mod 10)])"

text \<open>\<^verbatim>\<open>{ ...workflow }\<close>: the own enumerable properties of the value spread.\<close>

fun spreadProps :: "json option \<Rightarrow> (string \<times> json) list" where
  "spreadProps (Some (JObject props)) = props"
| "spreadProps (Some (JArray xs)) = zip (map showNat [0..<length xs]) xs"
| "spreadProps (Some (JString s)) = zip (map showNat [0..<length s]) (map (\<lambda>c. JString [c]) s)"
| "spreadProps _ = []"

definition activeWorkflow :: "json option \<Rightarrow> json" where
  "activeWorkflow workflow = JObject (setProp ''active'' (JBool True) (spreadProps workflow))"

text \<open>\<^verbatim>\<open>!n8nApiKey\<close>: the variable is unset or empty.\<close>

definition keyMissing :: "string option \<Rightarrow> bool" where
  "keyMissing n8nApiKey = (case n8nApiKey of None \<Rightarrow> True | Some k \<Rightarrow> k = [])"

text \<open>
  The names bound in the module of the dispatcher (\<^verbatim>\<open>src/unnamed/part_000\<close>): the local
  names of its import declarations (lines 1-8), its top-level constants and its two function
  declarations. The dispatcher calls \<^verbatim>\<open>axios.post\<close>, but \<^verbatim>\<open>axios\<close> is not among these names
  and is no global of the runtime: evaluating the identifier throws a \<^verbatim>\<open>ReferenceError\<close>.
\<close>

definition moduleBindings :: "string list" where
  "moduleBindings =
     [''express'', ''PrismaClient'', ''cors'', ''bcrypt'', ''jwt'', ''cookieParser'',
      ''authMiddleware'', ''LLMService'', ''app'', ''prisma'', ''llmService'', ''authenticate'',
      ''executeN8nWorkflow'', ''processTaskWithGemini'']"

text \<open>
  \<^verbatim>\<open>await axios.post(...)\<close> in a scope: when \<^verbatim>\<open>axios\<close> is bound the request goes to the
  engine, whose answer or error comes back; when it is not, the \<^verbatim>\<open>ReferenceError\<close> is thrown
  and no request is sent. The second component lists the requests sent.
\<close>

definition axiosPost ::
  "string list \<Rightarrow> n8n_engine \<Rightarrow> n8n_request \<Rightarrow> (js_error + json) \<times> n8n_request list" where
  "axiosPost scope engine request =
     (if ''axios'' \<in> set scope then (engine request, [request])
      else (Inl (JsError ''axios is not defined'' None), []))"

text \<open>The body of \<^verbatim>\<open>executeN8nWorkflow\<close> (lines 273-316), evaluated in a scope; every throw
  inside its \<^verbatim>\<open>try\<close> block is logged and rethrown as it is.\<close>

definition executeN8nWorkflow_in ::
  "string list \<Rightarrow> string option \<Rightarrow> n8n_engine \<Rightarrow> json option \<Rightarrow> nat \<Rightarrow> dispatch_report" where
  "executeN8nWorkflow_in scope n8nApiKey engine workflow taskId =
     (case n8nApiKey of
        None \<Rightarrow>
          \<lparr>dispatched = Inl (JsError ''N8N_API_KEY not configured in environment variables'' None),
           sent = []\<rparr>
      | Some key \<Rightarrow>
          if key = [] then
            \<lparr>dispatched = Inl (JsError ''N8N_API_KEY not configured in environment variables'' None),
             sent = []\<rparr>
          else
            (case axiosPost scope engine (CreateWorkflow key (activeWorkflow workflow)) of
               (Inl error, sent1) \<Rightarrow> \<lparr>dispatched = Inl error, sent = sent1\<rparr>
             | (Inr data, sent1) \<Rightarrow>
                 (case getProp data ''id'' of
                    Inl typeError \<Rightarrow> \<lparr>dispatched = Inl typeError, sent = sent1\<rparr>
                  | Inr workflowId \<Rightarrow>
                      (case axiosPost scope engine (ExecuteWorkflow key workflowId) of
                         (Inl error, sent2) \<Rightarrow>
                           \<lparr>dispatched = Inl error, sent = sent1 @ sent2\<rparr>
                       | (Inr acknowledgment, sent2) \<Rightarrow>
                           \<lparr>dispatched = Inr workflowId, sent = sent1 @ sent2\<rparr>))))"

text \<open>The dispatcher as the module has it: its body in the module's own scope.\<close>

definition executeN8nWorkflow ::
  "string option \<Rightarrow> n8n_engine \<Rightarrow> json option \<Rightarrow> nat \<Rightarrow> dispatch_report" where
  "executeN8nWorkflow n8nApiKey engine workflow taskId =
     executeN8nWorkflow_in moduleBindings n8nApiKey engine workflow taskId"

text \<open>Two engines for the examples: one accepts both requests, one registers the workflow
  under the identifier \<open>wf1\<close> and then refuses to execute it.\<close>

definition acceptingEngine :: n8n_engine where
  "acceptingEngine request =
     (case request of
        CreateWorkflow key body \<Rightarrow> Inr (JObject [(''id'', JString ''wf1'')])
      | ExecuteWorkflow key workflowId \<Rightarrow> Inr (JObject []))"

definition refusingEngine :: n8n_engine where
  "refusingEngine request =
     (case request of
        CreateWorkflow key body \<Rightarrow> Inr (JObject [(''id'', JString ''wf1'')])
      | ExecuteWorkflow key workflowId \<Rightarrow>
          Inl (JsError ''Request failed with status code 500'' (Some 500)))"

definition sampleWorkflow :: json where
  "sampleWorkflow = JObject [(''name'', JString ''Daily report''), (''nodes'', JArray [])]"

section \<open>The pipeline\<close>

subsection \<open>processTask (services/llmServices.js)\<close>

text \<open>The object \<^verbatim>\<open>processTask\<close> returns; \<^verbatim>\<open>provider\<close> and \<^verbatim>\<open>model\<close> are set on success only,
  \<^verbatim>\<open>error\<close> on failure only.\<close>

record gemini_result =
  success :: bool
  gr_provider :: "string option"
  gr_model :: "string option"
  gr_error :: "string option"
  gr_result :: json

definition fallbackDecision :: json where
  "fallbackDecision =
     JObject [(''automatable'', JBool False),
              (''reason'', JString ''Failed to process task with Gemini AI''),
              (''suggestions'',
                 JArray [JString ''Please try rephrasing your task'',
                         JString ''Make your request more specific'',
                         JString ''Contact support if the issue persists''])]"

definition processingFailed :: "js_error \<Rightarrow> gemini_result" where
  "processingFailed error =
     \<lparr>success = False, gr_provider = None, gr_model = None, gr_error = Some (message error),
      gr_result = fallbackDecision\<rparr>"

text \<open>
  Every throw of the client or of the parser is caught by \<^verbatim>\<open>processTask\<close> and turned into
  the failure object. Handing \<^verbatim>\<open>undefined\<close> to the parser throws inside its \<^verbatim>\<open>try\<close> block
  (\<^verbatim>\<open>response.replace\<close>), which the parser rethrows as its one error.
\<close>

definition processTask :: "gemini_api \<Rightarrow> json_parser \<Rightarrow> string \<Rightarrow> gemini_result" where
  "processTask api JSON_parse taskDescription =
     (let modelName = selectModel taskDescription
      in case outcome (callGemini api taskDescription modelName) of
           Inl error \<Rightarrow> processingFailed error
         | Inr None \<Rightarrow>
             processingFailed
               (JsError (''Invalid JSON response from Gemini: '' @
                  ''Cannot read properties of undefined (reading replace)'') None)
         | Inr (Some response) \<Rightarrow>
             (case parseAndValidateResponse JSON_parse response of
                Inl error \<Rightarrow> processingFailed error
              | Inr parsedResponse \<Rightarrow>
                  \<lparr>success = True, gr_provider = Some ''google'', gr_model = Some modelName,
                   gr_error = None, gr_result = parsedResponse\<rparr>))"

subsection \<open>processTaskWithGemini\<close>

text \<open>What lies outside one run: the API key of the engine, the model, the runtime's
  \<^verbatim>\<open>JSON.parse\<close>, the engine, and the clock.\<close>

record world =
  apiKey :: "string option"
  model_api :: gemini_api
  json_parse :: json_parser
  n8n :: n8n_engine
  clock :: string

text \<open>The \<^verbatim>\<open>catch\<close> block: the failure is written to the task; when this write throws too,
  the error is logged and the store stays as it was.\<close>

definition recordError :: "world \<Rightarrow> store \<Rightarrow> nat \<Rightarrow> js_error \<Rightarrow> store" where
  "recordError w db taskId error =
     (case prismaUpdate db taskId
             (\<lambda>t. t\<lparr>status := ''failed'',
                     result := Some (ErrorPayload (message error) error (clock w)),
                     task_type := Some ''processing_error''\<rparr>) of
        Inl updateError \<Rightarrow> db
      | Inr (t, db') \<Rightarrow> db')"

text \<open>The first write of the \<^verbatim>\<open>try\<close> block.\<close>

definition markInProgress :: "store \<Rightarrow> nat \<Rightarrow> js_error + task \<times> store" where
  "markInProgress db taskId =
     prismaUpdate db taskId
       (\<lambda>t. t\<lparr>status := ''in-progress'', task_type := Some ''gemini_processing''\<rparr>)"

text \<open>The rest of the \<^verbatim>\<open>try\<close> block, with its \<^verbatim>\<open>catch\<close>.\<close>

text \<open>\<^verbatim>\<open>a || b\<close> on a value that may be \<^verbatim>\<open>undefined\<close>.\<close>

definition orElse :: "json option \<Rightarrow> json \<Rightarrow> json" where
  "orElse a b = (case a of None \<Rightarrow> b | Some v \<Rightarrow> if truthy (Some v) then v else b)"

text \<open>\<^verbatim>\<open>geminiResult.success && geminiResult.result.automatable\<close>, as a condition: the
  property is read only when \<^verbatim>\<open>success\<close> is true.\<close>

definition isAutomatable :: "gemini_result \<Rightarrow> js_error + bool" where
  "isAutomatable geminiResult =
     (if success geminiResult then
        (case getProp (gr_result geminiResult) ''automatable'' of
           Inl typeError \<Rightarrow> Inl typeError
         | Inr automatable \<Rightarrow> Inr (truthy automatable))
      else Inr False)"

definition afterInProgress :: "world \<Rightarrow> store \<Rightarrow> nat \<Rightarrow> string \<Rightarrow> store" where
  "afterInProgress w db taskId taskDescription =
     (let geminiResult = processTask (model_api w) (json_parse w) taskDescription
      in case isAutomatable geminiResult of
           Inl typeError \<Rightarrow> recordError w db taskId typeError
         | Inr True \<Rightarrow>
             (case getProp (gr_result geminiResult) ''workflow'' of
                Inl typeError \<Rightarrow> recordError w db taskId typeError
              | Inr workflow \<Rightarrow>
                  (case dispatched (executeN8nWorkflow (apiKey w) (n8n w) workflow taskId) of
                     Inl error \<Rightarrow> recordError w db taskId error
                   | Inr workflowId \<Rightarrow>
                       (case prismaUpdate db taskId
                               (\<lambda>t. t\<lparr>status := ''completed'',
                                       result := Some (CompletedPayload (gr_result geminiResult)
                                         ''google'' (gr_model geminiResult) workflowId (clock w)),
                                       task_type := Some ''automatable''\<rparr>) of
                          Inl error \<Rightarrow> recordError w db taskId error
                        | Inr (t, db') \<Rightarrow> db')))
         | Inr False \<Rightarrow>
             (case getProp (gr_result geminiResult) ''reason'' of
                Inl typeError \<Rightarrow> recordError w db taskId typeError
              | Inr stated \<Rightarrow>
                  (case prismaUpdate db taskId
                          (\<lambda>t. t\<lparr>status := ''failed'',
                                  result := Some (DeclinedPayload (gr_result geminiResult)
                                    ''google'' (gr_model geminiResult)
                                    (orElse stated (JString ''Gemini AI processing failed''))
                                    (clock w)),
                                  task_type := Some ''not_automatable''\<rparr>) of
                     Inl error \<Rightarrow> recordError w db taskId error
                   | Inr (t, db') \<Rightarrow> db')))"

definition processTaskWithGemini :: "world \<Rightarrow> store \<Rightarrow> nat \<Rightarrow> string \<Rightarrow> string \<Rightarrow> store" where
  "processTaskWithGemini w db taskId taskDescription mail =
     (case markInProgress db taskId of
        Inl error \<Rightarrow> recordError w db taskId error
      | Inr (t, db') \<Rightarrow> afterInProgress w db' taskId taskDescription)"

section \<open>The task endpoints\<close>

text \<open>An answer of an endpoint: the task it returns, a message, or an HTTP error with its
  status code.\<close>

datatype response =
    TaskResponse nat task
  | MessageResponse nat string
  | ErrorResponse nat string

text \<open>
  \<^verbatim>\<open>POST /api/task\<close>, for an authenticated request whose body holds a task text. The answer
  is sent before the pipeline runs; the third component is the pipeline run the handler
  starts behind the answer (task id, description, email), if any.
\<close>

definition createTask ::
  "store \<Rightarrow> string \<Rightarrow> string \<Rightarrow> nat option \<Rightarrow> response \<times> store \<times> (nat \<times> string \<times> string) option" where
  "createTask db mail text uid =
     (if mail = [] then (ErrorResponse 401 ''Unauthorized: User not authenticated'', db, None)
      else if text = [] \<or> trim text = [] then
        (ErrorResponse 400 ''Task content is required'', db, None)
      else if length (trim text) < 3 then
        (ErrorResponse 400 ''Task content must be at least 3 characters long'', db, None)
      else
        (let (newTask, db') = prismaCreate db mail (trim text) uid
         in (TaskResponse 201 newTask, db', Some (task_id newTask, trim text, mail))))"

text \<open>\<^verbatim>\<open>PATCH /api/task/:id/status\<close>: the status alone is written.\<close>

definition patchStatus :: "store \<Rightarrow> string \<Rightarrow> nat \<Rightarrow> string \<Rightarrow> response \<times> store" where
  "patchStatus db mail taskId newStatus =
     (if newStatus \<notin> set [''pending'', ''in-progress'', ''completed'', ''failed''] then
        (ErrorResponse 400 ''Invalid status value'', db)
      else
        (case findUnique db taskId of
           None \<Rightarrow> (ErrorResponse 404 ''Task not found'', db)
         | Some t \<Rightarrow>
             if email t \<noteq> mail then (ErrorResponse 403 ''Unauthorized to update this task'', db)
             else
               (case prismaUpdate db taskId (\<lambda>t. t\<lparr>status := newStatus\<rparr>) of
                  Inl error \<Rightarrow> (ErrorResponse 404 ''Task not found'', db)
                | Inr (updatedTask, db') \<Rightarrow> (TaskResponse 200 updatedTask, db'))))"

text \<open>\<^verbatim>\<open>POST /api/task/:id/retry\<close>: the reset, the answer, and the pipeline run it starts.\<close>

definition retryTask ::
  "store \<Rightarrow> string \<Rightarrow> nat \<Rightarrow> response \<times> store \<times> (nat \<times> string \<times> string) option" where
  "retryTask db mail taskId =
     (case findUnique db taskId of
        None \<Rightarrow> (ErrorResponse 404 ''Task not found'', db, None)
      | Some t \<Rightarrow>
          if email t \<noteq> mail then
            (ErrorResponse 403 ''Unauthorized to retry this task'', db, None)
          else
            (case prismaUpdate db taskId
                    (\<lambda>t. t\<lparr>status := ''pending'', result := None, task_type := Some ''retry''\<rparr>) of
               Inl error \<Rightarrow> (ErrorResponse 500 ''Failed to retry task'', db, None)
             | Inr (t', db') \<Rightarrow>
                 (MessageResponse 200 ''Task retry initiated with Gemini AI'', db',
                  Some (taskId, task_text t, mail))))"

subsection \<open>The invariant of the specification\<close>

definition resultMatchesStatus :: "task \<Rightarrow> bool" where
  "resultMatchesStatus t =
     ((result t \<noteq> None) = (status t = ''completed'' \<or> status t = ''failed''))"

definition consistent :: "store \<Rightarrow> bool" where
  "consistent db = (\<forall>i t. tasks db i = Some t \<longrightarrow> resultMatchesStatus t)"

text \<open>A write to the task \<open>i\<close> leaves every other task as it was.\<close>

definition onlyChanges :: "store \<Rightarrow> store \<Rightarrow> nat \<Rightarrow> bool" where
  "onlyChanges db db' i = (\<forall>j. j \<noteq> i \<longrightarrow> tasks db' j = tasks db j)"

subsection \<open>Worlds and stores of the examples\<close>

definition isErrorPayload :: "result_payload \<Rightarrow> bool" where
  "isErrorPayload p = (case p of ErrorPayload msg trace ts \<Rightarrow> True | _ \<Rightarrow> False)"

definition isDeclinedPayload :: "result_payload \<Rightarrow> bool" where
  "isDeclinedPayload p = (case p of DeclinedPayload decision prov mdl why ts \<Rightarrow> True | _ \<Rightarrow> False)"

definition automatableText :: string where
  "automatableText =
     ''{'' @ quoted ''automatable'' @ '': true, '' @ quoted ''workflow'' @ '': {''
       @ quoted ''name'' @ '': '' @ quoted ''Daily report'' @ '', ''
       @ quoted ''nodes'' @ '': []}}''"

text \<open>The model is down for good (a failure that is not an overload).\<close>

definition downWorld :: world where
  "downWorld =
     \<lparr>apiKey = Some ''secret'',
      model_api = (\<lambda>n modelName taskDescription. Inl (JsError ''fetch failed'' None)),
      json_parse = readJson, n8n = acceptingEngine, clock = ''2025-10-01T08:00:00.000Z''\<rparr>"

text \<open>The model answers with a text that is no JSON.\<close>

definition garbledWorld :: world where
  "garbledWorld =
     \<lparr>apiKey = Some ''secret'',
      model_api = (\<lambda>n modelName taskDescription. Inr ''not json''),
      json_parse = readJson, n8n = acceptingEngine, clock = ''2025-10-01T08:00:00.000Z''\<rparr>"

text \<open>The model answers with a workflow, which is then handed to the dispatcher; the
  engine behind it would refuse to execute any workflow.\<close>

definition refusedWorld :: world where
  "refusedWorld =
     \<lparr>apiKey = Some ''secret'',
      model_api = (\<lambda>n modelName taskDescription. Inr automatableText),
      json_parse = readJson, n8n = refusingEngine, clock = ''2025-10-01T08:00:00.000Z''\<rparr>"

text \<open>The store after one task was created in the empty one.\<close>

definition annsTask :: task where
  "annsTask =
     \<lparr>task_id = 1, email = ''ann@example.org'', task_text = ''water the plants'',
      status = ''pending'', result = None, task_type = Some ''gemini_processing'',
      userId = None\<rparr>"

definition oneTaskStore :: store where
  "oneTaskStore = fst (snd (createTask emptyStore ''ann@example.org'' ''water the plants'' None))"

text \<open>
  A retry that overtakes a run in flight: the first run of the task has marked it
  in-progress; the owner asks for a retry, which resets the task; the first run then writes
  its terminal state; the run started by the retry then marks the task in-progress.
\<close>

definition storeAfterFirstMark :: store where
  "storeAfterFirstMark =
     (case markInProgress oneTaskStore 1 of Inl error \<Rightarrow> oneTaskStore | Inr (t, db) \<Rightarrow> db)"

definition storeAfterRetry :: store where
  "storeAfterRetry = fst (snd (retryTask storeAfterFirstMark ''ann@example.org'' 1))"

definition storeAfterFirstRun :: store where
  "storeAfterFirstRun = afterInProgress downWorld storeAfterRetry 1 ''water the plants''"

definition catTask :: task where
  "catTask =
     \<lparr>task_id = 2, email = ''ann@example.org'', task_text = ''feed the cat'',
      status = ''pending'', result = None, task_type = Some ''gemini_processing'',
      userId = None\<rparr>"

section \<open>Model selection: proofs\<close>

lemma startsWith_prefix: "startsWith s p \<longleftrightarrow> prefix p s"
  by (induction s p rule: startsWith.induct) auto

lemma includes_str_sublist: "includes_str s p \<longleftrightarrow> sublist p s"
  by (induction s) (simp_all add: startsWith_prefix sublist_Cons_right)

text \<open>The code's lower-casing is the table's, on every character.\<close>

lemma char_eq_char_of: "c = char_of (n::nat) \<longleftrightarrow> take_bit 8 n = of_char c"
  using char_of_eq_iff [of n c] by auto

lemma capitalLetters_codes: "capitalLetters = map char_of capitalCodes"
  by (simp add: capitalLetters_def capitalCodes_def char_eq_char_of)

lemma smallLetters_codes: "smallLetters = map (\<lambda>n. char_of (n + 32)) capitalCodes"
  by (simp add: smallLetters_def capitalCodes_def char_eq_char_of)

lemma map_of_zip_map:
  "inj_on f (insert n (set xs)) \<Longrightarrow>
     map_of (zip (map f xs) (map g xs)) (f n) = (if n \<in> set xs then Some (g n) else None)"
proof (induction xs)
  case Nil
  then show ?case by simp
next
  case (Cons x xs)
  have i: "inj_on f (insert n (set xs))"
    using Cons.prems by (rule inj_on_subset) auto
  have "f x = f n \<longleftrightarrow> x = n"
    using Cons.prems by (auto simp: inj_on_def)
  then show ?case using Cons.IH [OF i] by auto
qed

lemma capitalCodes_iff:
  "n \<in> set capitalCodes \<longleftrightarrow> (65 \<le> n \<and> n \<le> 90) \<or> (192 \<le> n \<and> n \<le> 222 \<and> n \<noteq> 215)"
  unfolding capitalCodes_def set_append set_upt by auto

lemma lowerChar_spec: "lowerChar c = spec_lowerChar c"
proof -
  define n :: nat where "n = of_char c"
  have n: "n < 256" and c: "c = char_of n" by (simp_all add: n_def)
  have "set capitalCodes \<subseteq> {0..<256}"
    unfolding capitalCodes_def set_append set_upt by auto
  then have "inj_on (char_of :: nat \<Rightarrow> char) (insert n (set capitalCodes))"
    using n by (intro inj_on_subset [OF inj_on_char_of_nat]) auto
  from map_of_zip_map [OF this, of "\<lambda>n. char_of (n + 32)"]
  have "spec_lowerChar c = (if n \<in> set capitalCodes then char_of (n + 32) else c)"
    by (simp add: spec_lowerChar_def capitalLetters_codes smallLetters_codes c)
  moreover have "lowerChar c = (if n \<in> set capitalCodes then char_of (n + 32) else c)"
    unfolding capitalCodes_iff by (simp add: lowerChar_def n_def Let_def)
  ultimately show ?thesis by simp
qed

lemma toLowerCase_spec: "toLowerCase t = spec_lowerCase t"
  by (simp add: toLowerCase_def spec_lowerCase_def lowerChar_spec)

lemma complexScore_spec: "complexScore t = spec_matchCount complexPatterns t"
  by (simp add: complexScore_def spec_matchCount_def includes_str_sublist toLowerCase_spec)

lemma easyScore_spec: "easyScore t = spec_matchCount easyPatterns t"
  by (simp add: easyScore_def spec_matchCount_def includes_str_sublist toLowerCase_spec)

lemma toLowerCase_capitals:
  "toLowerCase ''ANALYZE the data, then Compare'' = ''analyze the data, then compare'' \<and>
   toLowerCase ''REMINDER'' = ''reminder'' \<and>
   toLowerCase ''Water The Plants'' = ''water the plants''"
  by (simp add: toLowerCase_def lowerChar_def char_of_eq_iff)

text \<open>
  C5. For every task description, \<open>analyzeComplexity\<close> lower-cases the text (capital
  letters become small ones, nothing else changes), counts the keywords of the complex list
  and of the easy list that occur in the lower-cased text as substrings, and answers complex
  when the complex count is at least 2, else easy when the easy count is at least 1 and the
  complex count is 0, else intermediate. It is total and its value is always one of the
  three tiers. Texts written in capitals are matched like their lower-case forms.
\<close>

theorem analyzeComplexity_decision_rule:
  "toLowerCase t = spec_lowerCase t \<and>
   complexScore t = spec_matchCount complexPatterns t \<and>
   easyScore t = spec_matchCount easyPatterns t \<and>
   analyzeComplexity t = spec_tier t \<and>
   analyzeComplexity t \<in> {''complex'', ''easy'', ''intermediate''} \<and>
   analyzeComplexity ''ANALYZE the data, then Compare'' = ''complex'' \<and>
   analyzeComplexity ''REMINDER'' = ''easy'' \<and>
   analyzeComplexity ''Water The Plants'' = ''intermediate'' \<and>
   analyzeComplexity ''analyze the plants'' = ''intermediate''"
proof -
  have rule: "analyzeComplexity t = spec_tier t"
    by (simp add: analyzeComplexity_def spec_tier_def complexScore_spec easyScore_spec Let_def)
  have tiers: "analyzeComplexity t \<in> {''complex'', ''easy'', ''intermediate''}"
    by (simp add: analyzeComplexity_def)
  have 1: "analyzeComplexity ''ANALYZE the data, then Compare'' = ''complex''"
    by (simp add: analyzeComplexity_def complexScore_def easyScore_def toLowerCase_capitals
        complexPatterns_def easyPatterns_def)
  have 2: "analyzeComplexity ''REMINDER'' = ''easy''"
    by (simp add: analyzeComplexity_def complexScore_def easyScore_def toLowerCase_capitals
        complexPatterns_def easyPatterns_def)
  have 3: "analyzeComplexity ''Water The Plants'' = ''intermediate''"
    by (simp add: analyzeComplexity_def complexScore_def easyScore_def toLowerCase_capitals
        complexPatterns_def easyPatterns_def)
  have 4: "analyzeComplexity ''analyze the plants'' = ''intermediate''"
    by (simp add: analyzeComplexity_def complexScore_def easyScore_def
        complexPatterns_def easyPatterns_def toLowerCase_def lowerChar_def)
  show ?thesis
    by (intro conjI) (fact toLowerCase_spec complexScore_spec easyScore_spec rule tiers 1 2 3 4)+
qed

text \<open>
  C9. \<open>selectModel\<close> answers one of exactly two model identifiers: \<open>gemini-2.5-pro\<close> when
  the tier is complex and \<open>gemini-2.5-flash\<close> otherwise, so the easy and the intermediate
  tier choose the same model. Each of the three tiers is reached by some text.
\<close>

theorem selectModel_two_models:
  "selectModel t =
     (if analyzeComplexity t = ''complex'' then ''gemini-2.5-pro'' else ''gemini-2.5-flash'') \<and>
   selectModel t \<in> {''gemini-2.5-pro'', ''gemini-2.5-flash''} \<and>
   analyzeComplexity ''reminder'' = ''easy'' \<and>
   selectModel ''reminder'' = ''gemini-2.5-flash'' \<and>
   analyzeComplexity ''water the plants'' = ''intermediate'' \<and>
   selectModel ''water the plants'' = ''gemini-2.5-flash'' \<and>
   analyzeComplexity ''analyze and compare'' = ''complex'' \<and>
   selectModel ''analyze and compare'' = ''gemini-2.5-pro''"
  by (simp add: selectModel_def Let_def analyzeComplexity_def complexScore_def easyScore_def
      complexPatterns_def easyPatterns_def toLowerCase_def lowerChar_def)

subsection \<open>The examples of the selection rule\<close>

lemma includes_str_toLowerCase:
  "includes_str t p \<Longrightarrow> includes_str (toLowerCase t) (toLowerCase p)"
  unfolding includes_str_sublist toLowerCase_def by (rule map_mono_sublist)

lemma toLowerCase_analyze: "toLowerCase ''analyze'' = ''analyze''"
  by (simp add: toLowerCase_def lowerChar_def)

lemma toLowerCase_compare: "toLowerCase ''compare'' = ''compare''"
  by (simp add: toLowerCase_def lowerChar_def)

text \<open>A text with both \<open>analyze\<close> and \<open>compare\<close> in it is complex, whatever else it holds.\<close>

lemma analyze_compare_complex:
  assumes "includes_str t ''analyze''" and "includes_str t ''compare''"
  shows "analyzeComplexity t = ''complex'' \<and> selectModel t = ''gemini-2.5-pro''"
proof -
  have a: "includes_str (toLowerCase t) ''analyze''"
    using includes_str_toLowerCase [OF assms(1)] by (simp only: toLowerCase_analyze)
  have c: "includes_str (toLowerCase t) ''compare''"
    using includes_str_toLowerCase [OF assms(2)] by (simp only: toLowerCase_compare)
  have "2 \<le> complexScore t"
    using a c by (simp add: complexScore_def complexPatterns_def)
  then show ?thesis by (simp add: analyzeComplexity_def selectModel_def)
qed

text \<open>A text in which, once lower-cased, no keyword of either list occurs is intermediate.\<close>

lemma no_keyword_intermediate:
  assumes "list_all (\<lambda>p. \<not> includes_str (toLowerCase t) p) (complexPatterns @ easyPatterns)"
  shows "analyzeComplexity t = ''intermediate'' \<and> selectModel t = ''gemini-2.5-flash''"
proof -
  have "complexScore t = 0" "easyScore t = 0"
    using assms by (simp_all add: complexScore_def easyScore_def list_all_iff)
  then show ?thesis by (simp add: analyzeComplexity_def selectModel_def)
qed

text \<open>A text in which, once lower-cased, an easy keyword occurs and no complex one is easy.\<close>

lemma easy_keyword_only_easy:
  assumes "list_ex (\<lambda>p. includes_str (toLowerCase t) p) easyPatterns"
    and "list_all (\<lambda>p. \<not> includes_str (toLowerCase t) p) complexPatterns"
  shows "analyzeComplexity t = ''easy'' \<and> selectModel t = ''gemini-2.5-flash''"
proof -
  have "filter (\<lambda>p. includes_str (toLowerCase t) p) easyPatterns \<noteq> []"
    using assms(1) by (simp add: filter_empty_conv list_ex_iff)
  then have "1 \<le> easyScore t"
    by (cases "filter (\<lambda>p. includes_str (toLowerCase t) p) easyPatterns")
      (simp_all add: easyScore_def)
  moreover have "complexScore t = 0"
    using assms(2) by (simp add: complexScore_def list_all_iff)
  ultimately show ?thesis by (simp add: analyzeComplexity_def selectModel_def)
qed

text \<open>
  The easy keyword \<open>send email\<close> holds the complex keyword \<open>ai\<close> (in \<open>email\<close>), so a text
  with \<open>send email\<close> in it always has a complex count of at least 1 and is never easy.
\<close>

lemma ai_in_send_email: "sublist ''ai'' ''send email''"
  by (simp add: includes_str_sublist [symmetric])

lemma send_email_never_easy:
  assumes "includes_str (toLowerCase t) ''send email''"
  shows "analyzeComplexity t = ''intermediate'' \<or> analyzeComplexity t = ''complex''"
proof -
  have "sublist ''ai'' (toLowerCase t)"
    using assms ai_in_send_email unfolding includes_str_sublist
    by (meson sublist_order.order_trans)
  then have "includes_str (toLowerCase t) ''ai''"
    by (simp add: includes_str_sublist)
  then have "1 \<le> complexScore t"
    by (simp add: complexScore_def complexPatterns_def)
  then show ?thesis by (simp add: analyzeComplexity_def)
qed

lemma ai_in_daily_message: "sublist ''ai'' ''daily message''"
  by (simp add: includes_str_sublist [symmetric])

text \<open>
  The three examples of the selection rule, in general: both \<open>analyze\<close> and \<open>compare\<close>
  in the text give the complex tier; an easy keyword and no complex keyword in the
  lower-cased text give the easy tier; no keyword at all gives the intermediate tier.
\<close>

lemma selectModel_examples:
  "(includes_str t ''analyze'' \<and> includes_str t ''compare'' \<longrightarrow>
      analyzeComplexity t = ''complex'' \<and> selectModel t = ''gemini-2.5-pro'') \<and>
   (list_ex (\<lambda>p. includes_str (toLowerCase u) p) easyPatterns \<and>
    list_all (\<lambda>p. \<not> includes_str (toLowerCase u) p) complexPatterns \<longrightarrow>
      analyzeComplexity u = ''easy'' \<and> selectModel u = ''gemini-2.5-flash'') \<and>
   (list_all (\<lambda>p. \<not> includes_str (toLowerCase v) p) (complexPatterns @ easyPatterns) \<longrightarrow>
      analyzeComplexity v = ''intermediate'' \<and> selectModel v = ''gemini-2.5-flash'')"
  using analyze_compare_complex [of t] easy_keyword_only_easy [of u]
    no_keyword_intermediate [of v]
  by blast

text \<open>
  C4. Model selection is a function of the text alone; a text with both \<open>analyze\<close> and
  \<open>compare\<close> selects the complex tier and a text with no keyword the intermediate tier, as
  shown above. The text \<open>send email\<close>, the first entry of the list of easy patterns, does
  not select the easy tier: the code answers intermediate, because the complex keyword
  \<open>ai\<close> occurs inside \<open>email\<close>, the complex count is 1 and the easy rule asks for 0. The
  same happens to the easy pattern \<open>daily message\<close>.
\<close>

theorem send_email_is_intermediate:
  "analyzeComplexity ''send email'' = ''intermediate'' \<and>
   analyzeComplexity ''send email'' \<noteq> ''easy'' \<and>
   includes_str (toLowerCase ''send email'') ''ai'' \<and>
   complexScore ''send email'' = 1 \<and> easyScore ''send email'' = 1 \<and>
   selectModel ''send email'' = ''gemini-2.5-flash'' \<and>
   analyzeComplexity ''daily message'' = ''intermediate'' \<and>
   complexScore ''daily message'' = 1 \<and> easyScore ''daily message'' = 1"
  by (simp add: selectModel_def analyzeComplexity_def complexScore_def easyScore_def
      complexPatterns_def easyPatterns_def toLowerCase_def lowerChar_def)

section \<open>The LLM client: proofs\<close>

lemma callGemini_is_second: "callGemini = callGemini_second"
  by (simp add: callGemini_def callGemini_definitions_def)

text \<open>Whatever the model does, the method that runs sends one request and never sleeps.\<close>

lemma callGemini_one_request:
  "requests (callGemini api taskDescription modelName) = 1 \<and>
   slept (callGemini api taskDescription modelName) = 0"
  by (cases "api 0 modelName taskDescription")
    (simp_all add: callGemini_is_second callGemini_second_def)

text \<open>The first definition does what the specification says of the client: in the scenario
  it returns the text after three requests and two sleeps of 30 seconds; a failure that is
  not an overload ends it after one request.\<close>

lemma callGemini_first_overloadedTwice:
  "callGemini_first overloadedTwice taskDescription modelName =
     \<lparr>outcome = Inr (Some ''the answer''), requests = 3, slept = 60000\<rparr>"
  by (simp add: callGemini_first_def overloadedTwice_def)

lemma callGemini_first_not_retryable:
  assumes "api 0 modelName taskDescription = Inl error" and "err_status error \<noteq> Some 503"
  shows "callGemini_first api taskDescription modelName =
     \<lparr>outcome = Inl (JsError (''Failed to call Gemini API: '' @ message error) None),
      requests = 1, slept = 0\<rparr>"
  using assms by (simp add: callGemini_first_def)

text \<open>
  C1. In the scenario of an overload on the first and the second request and an answer on
  the third, \<open>callGemini\<close> as the class has it (the second definition, which replaces the
  retrying one) sends one request, sleeps never and throws the wrapped overload error; it
  does not return the text and does not make three calls.
\<close>

theorem callGemini_overloadedTwice_fails:
  "callGemini overloadedTwice taskDescription modelName =
     \<lparr>outcome = Inl (JsError ''Failed to call Gemini API: The model is overloaded'' None),
      requests = 1, slept = 0\<rparr>"
  by (simp add: callGemini_is_second callGemini_second_def overloadedTwice_def)

section \<open>The response parser: proofs\<close>

subsection \<open>Cleaning the raw text\<close>

lemma startsWith_fence_hd: "startsWith (c # cs) fence \<Longrightarrow> c = CHR 0x60"
  by (simp add: fence_def)

lemma removeMarker_hd:
  "removeMarker m s = x # t \<Longrightarrow> m = fence \<Longrightarrow> x = CHR 0x60 \<Longrightarrow> \<exists>u. s = CHR 0x60 # u"
proof (induction m s rule: removeMarker.induct)
  case (1 marker)
  then show ?case by simp
next
  case (2 marker c cs)
  show ?case
  proof (cases "marker \<noteq> [] \<and> startsWith (c # cs) marker")
    case True
    then have "c = CHR 0x60" using 2(4) startsWith_fence_hd by blast
    then show ?thesis by simp
  next
    case False
    then show ?thesis using 2 by auto
  qed
qed

lemma removeMarker_no_prefix:
  assumes "\<not> startsWith (c # cs) fence"
  shows "\<not> prefix fence (c # removeMarker fence cs)"
proof
  assume p: "prefix fence (c # removeMarker fence cs)"
  then obtain t where c: "c = CHR 0x60" and r1: "removeMarker fence cs = CHR 0x60 # CHR 0x60 # t"
    by (auto simp: fence_def prefix_def)
  from removeMarker_hd [OF r1 refl refl] obtain ds where cs: "cs = CHR 0x60 # ds" by blast
  have nm: "\<not> (fence \<noteq> [] \<and> startsWith (CHR 0x60 # ds) fence)"
    using assms c cs by (cases ds) (auto simp: fence_def)
  have "removeMarker fence (CHR 0x60 # ds) = CHR 0x60 # removeMarker fence ds"
    by (subst removeMarker.simps(2)) (rule if_not_P [OF nm])
  then have r2: "removeMarker fence ds = CHR 0x60 # t"
    using r1 cs by simp
  from removeMarker_hd [OF r2 refl refl] obtain es where ds: "ds = CHR 0x60 # es" by blast
  have "startsWith (c # cs) fence"
    unfolding c cs ds by (simp add: fence_def)
  with assms show False by simp
qed

lemma removeMarker_no_fence:
  "m = fence \<Longrightarrow> \<not> sublist fence (removeMarker m s)"
proof (induction m s rule: removeMarker.induct)
  case (1 marker)
  then show ?case by (simp add: fence_def)
next
  case (2 marker c cs)
  show ?case
  proof (cases "marker \<noteq> [] \<and> startsWith (c # cs) marker")
    case True
    then show ?thesis using 2 by simp
  next
    case False
    then have ns: "\<not> startsWith (c # cs) fence" using 2(3) by (simp add: fence_def)
    have "removeMarker marker (c # cs) = c # removeMarker marker cs"
      by (subst removeMarker.simps(2)) (rule if_not_P [OF False])
    then have "removeMarker marker (c # cs) = c # removeMarker fence cs"
      using 2(3) by simp
    moreover have "\<not> sublist fence (removeMarker fence cs)"
      using 2(2) [OF False] 2(3) by simp
    ultimately show ?thesis
      using removeMarker_no_prefix [OF ns] by (simp add: sublist_Cons_right)
  qed
qed

lemma sublist_dropWhile: "sublist (dropWhile P s) s"
  by (metis sublist_order.order_refl suffix_dropWhile suffix_imp_sublist)

lemma trim_sublist: "sublist (trim s) s"
proof -
  have "sublist (rev (trim s)) (rev (dropWhile isSpace s))"
    unfolding trim_def rev_rev_ident by (rule sublist_dropWhile)
  then have "sublist (trim s) (dropWhile isSpace s)"
    by (simp add: sublist_rev_left)
  then show ?thesis
    using sublist_dropWhile [of isSpace s] by (meson sublist_order.order_trans)
qed

lemma matchBraces_Some:
  assumes "matchBraces s = Some m"
  shows "\<exists>pre body post. s = pre @ m @ post \<and> m = CHR 0x7B # body @ [CHR 0x7D] \<and>
           CHR 0x7B \<notin> set pre \<and> CHR 0x7D \<notin> set post"
proof -
  define pre where "pre = takeWhile (\<lambda>c. c \<noteq> CHR 0x7B) s"
  obtain b rest where d: "dropWhile (\<lambda>c. c \<noteq> CHR 0x7B) s = b # rest"
    using assms by (auto simp: matchBraces_def split: list.splits)
  have "\<not> (hd (dropWhile (\<lambda>c. c \<noteq> CHR 0x7B) s) \<noteq> CHR 0x7B)"
    by (rule hd_dropWhile) (simp add: d)
  then have b: "b = CHR 0x7B" by (simp add: d)
  obtain r rs where e: "dropWhile (\<lambda>c. c \<noteq> CHR 0x7D) (rev rest) = r # rs"
    using assms d by (auto simp: matchBraces_def split: list.splits)
  have "\<not> (hd (dropWhile (\<lambda>c. c \<noteq> CHR 0x7D) (rev rest)) \<noteq> CHR 0x7D)"
    by (rule hd_dropWhile) (simp add: e)
  then have r: "r = CHR 0x7D" by (simp add: e)
  define post where "post = rev (takeWhile (\<lambda>c. c \<noteq> CHR 0x7D) (rev rest))"
  have m: "m = b # rev (r # rs)" using assms d e by (simp add: matchBraces_def)
  have "rev rest = rev post @ r # rs"
    unfolding post_def rev_rev_ident e [symmetric] by simp
  then have rest: "rest = rev (r # rs) @ post" by (metis rev_append rev_rev_ident)
  have s: "s = pre @ b # rest" unfolding pre_def d [symmetric] by simp
  have "CHR 0x7B \<notin> set pre" unfolding pre_def by (auto dest: set_takeWhileD)
  moreover have "CHR 0x7D \<notin> set post" unfolding post_def by (auto dest: set_takeWhileD)
  moreover have "s = pre @ m @ post" using s rest m by simp
  moreover have "m = CHR 0x7B # rev rs @ [CHR 0x7D]" using m b r by simp
  ultimately show ?thesis by blast
qed

lemma matchBraces_None:
  assumes "matchBraces s = None"
  shows "\<not> (\<exists>pre mid post. s = pre @ CHR 0x7B # mid @ CHR 0x7D # post)"
proof
  assume "\<exists>pre mid post. s = pre @ CHR 0x7B # mid @ CHR 0x7D # post"
  then obtain pre mid post where s: "s = pre @ CHR 0x7B # mid @ CHR 0x7D # post" by blast
  let ?P = "\<lambda>c. c \<noteq> CHR 0x7B"
  have "\<exists>rest. dropWhile ?P s = CHR 0x7B # rest \<and> CHR 0x7D \<in> set rest"
  proof (cases "\<forall>x\<in>set pre. ?P x")
    case True
    then have "dropWhile ?P s = CHR 0x7B # mid @ CHR 0x7D # post"
      unfolding s by (simp add: dropWhile_append)
    then show ?thesis by simp
  next
    case False
    then have "dropWhile ?P pre \<noteq> []"
      by (simp add: dropWhile_eq_Nil_conv)
    then obtain b r where d: "dropWhile ?P pre = b # r"
      by (cases "dropWhile ?P pre") simp_all
    have "\<not> ?P (hd (dropWhile ?P pre))"
      by (rule hd_dropWhile) (simp add: d)
    then have b: "b = CHR 0x7B"
      by (simp add: d)
    have "dropWhile ?P s = dropWhile ?P pre @ CHR 0x7B # mid @ CHR 0x7D # post"
      unfolding s using False by (simp add: dropWhile_append1)
    then show ?thesis using d b by simp
  qed
  then obtain rest where d: "dropWhile ?P s = CHR 0x7B # rest" and m: "CHR 0x7D \<in> set rest"
    by blast
  have "dropWhile (\<lambda>c. c \<noteq> CHR 0x7D) (rev rest) \<noteq> []"
    using m by (auto simp: dropWhile_eq_Nil_conv)
  then obtain r rs where "dropWhile (\<lambda>c. c \<noteq> CHR 0x7D) (rev rest) = r # rs"
    by (cases "dropWhile (\<lambda>c. c \<noteq> CHR 0x7D) (rev rest)") simp_all
  then show False
    using assms d by (simp add: matchBraces_def)
qed

subsection \<open>The span handed to the parser, and the outcome\<close>

lemma matchBraces_braceSpan: "matchBraces s = Some m \<Longrightarrow> braceSpan s m"
  unfolding braceSpan_def by (rule matchBraces_Some)

lemma braceSpan_matchBraces: "braceSpan s m \<Longrightarrow> matchBraces s \<noteq> None"
proof
  assume b: "braceSpan s m" and n: "matchBraces s = None"
  from b obtain pre body post where "s = pre @ CHR 0x7B # body @ CHR 0x7D # post"
    by (auto simp: braceSpan_def)
  with matchBraces_None [OF n] show False by blast
qed

lemma braceSpan_imp_matchBraces:
  assumes "braceSpan s m"
  shows "matchBraces s = Some m"
proof -
  from assms obtain pre body post where s: "s = pre @ m @ post"
    and m: "m = CHR 0x7B # body @ [CHR 0x7D]"
    and pre: "CHR 0x7B \<notin> set pre" and post: "CHR 0x7D \<notin> set post"
    by (auto simp: braceSpan_def)
  have d: "dropWhile (\<lambda>c. c \<noteq> CHR 0x7B) s = CHR 0x7B # body @ CHR 0x7D # post"
    unfolding s m using pre by (simp add: dropWhile_append)
  have "rev (body @ CHR 0x7D # post) = rev post @ CHR 0x7D # rev body"
    by simp
  moreover have "dropWhile (\<lambda>c. c \<noteq> CHR 0x7D) (rev post @ CHR 0x7D # rev body) = CHR 0x7D # rev body"
    using post by (simp add: dropWhile_append)
  ultimately have e: "dropWhile (\<lambda>c. c \<noteq> CHR 0x7D) (rev (body @ CHR 0x7D # post)) = CHR 0x7D # rev body"
    by simp
  show ?thesis
    unfolding matchBraces_def d list.case e by (simp add: m)
qed

lemma matchBraces_iff: "matchBraces s = Some m \<longleftrightarrow> braceSpan s m"
  using matchBraces_braceSpan braceSpan_imp_matchBraces by blast

lemma cleanResponse_span:
  "braceSpan (stripFences r) m \<Longrightarrow> cleanResponse r = m"
  by (simp add: cleanResponse_def braceSpan_imp_matchBraces)

lemma cleanResponse_no_span:
  "\<forall>m. \<not> braceSpan (stripFences r) m \<Longrightarrow> cleanResponse r = stripFences r"
  by (cases "matchBraces (stripFences r)") (simp_all add: cleanResponse_def matchBraces_iff)

lemma cleanResponse_no_fence: "\<not> sublist fence (cleanResponse r)"
proof -
  have a: "\<not> sublist fence (stripFences r)"
    unfolding stripFences_def
    using removeMarker_no_fence [OF refl] trim_sublist
    by (meson sublist_order.order_trans)
  show ?thesis
  proof (cases "matchBraces (stripFences r)")
    case None
    then show ?thesis using a by (simp add: cleanResponse_def)
  next
    case (Some m)
    then have "sublist m (stripFences r)"
      using matchBraces_Some [OF Some] by (auto simp: sublist_def)
    then have "\<not> sublist fence m" using a by (meson sublist_order.order_trans)
    then show ?thesis using Some by (simp add: cleanResponse_def)
  qed
qed

lemma validateParsed_isl: "isl (validateParsed v) = refusedDecision v"
  by (cases v)
    (auto simp: validateParsed_def refusedDecision_def ownProp_def getProp_def
      split: json.splits option.splits)

lemma validateParsed_Inr: "validateParsed v = Inr w \<Longrightarrow> w = v"
  by (cases v)
    (auto simp: validateParsed_def getProp_def split: json.splits option.splits if_splits)

lemma parseAndValidateResponse_isl:
  "isl (parseAndValidateResponse P r) =
     (case P (cleanResponse r) of Inl e \<Rightarrow> True | Inr v \<Rightarrow> refusedDecision v)"
proof (cases "P (cleanResponse r)")
  case (Inl e)
  then show ?thesis by (simp add: parseAndValidateResponse_def)
next
  case (Inr v)
  then show ?thesis
    using validateParsed_isl [of v]
    by (cases "validateParsed v") (simp_all add: parseAndValidateResponse_def)
qed

lemma parseAndValidateResponse_Inr:
  assumes "parseAndValidateResponse P r = Inr v"
  shows "P (cleanResponse r) = Inr v"
proof (cases "P (cleanResponse r)")
  case (Inl e)
  then show ?thesis using assms by (simp add: parseAndValidateResponse_def)
next
  case (Inr w)
  then have "validateParsed w = Inr v"
    using assms by (cases "validateParsed w") (simp_all add: parseAndValidateResponse_def)
  then show ?thesis using Inr validateParsed_Inr by blast
qed

lemma parseAndValidateResponse_Inl:
  assumes "parseAndValidateResponse P r = Inl e"
  shows "\<exists>m. e = JsError (''Invalid JSON response from Gemini: '' @ m) None"
  using assms by (auto simp: parseAndValidateResponse_def split: sum.splits)

subsection \<open>The concrete texts\<close>

lemmas reader_defs = readJson_def skipSpace_def isJsonSpace_def quoted_def readNumber_def
  isDigit_def digitsValue_def

lemma readJson_workflowNullText:
  "readJson workflowNullText = Inr (JObject [(''automatable'', JBool True), (''workflow'', JNull)])"
  by (simp add: reader_defs workflowNullText_def)

lemma readJson_reasonEmptyText:
  "readJson reasonEmptyText = Inr (JObject [(''automatable'', JBool False), (''reason'', JString [])])"
  by (simp add: reader_defs reasonEmptyText_def)

lemma readJson_reasonGivenText:
  "readJson reasonGivenText =
     Inr (JObject [(''automatable'', JBool False), (''reason'', JString ''needs a human'')])"
  by (simp add: reader_defs reasonGivenText_def)

lemma stripFences_workflowNullText: "stripFences workflowNullText = workflowNullText"
  by (simp add: stripFences_def trim_def isSpace_def fence_def workflowNullText_def quoted_def
      dropNewline_def)

lemma matchBraces_workflowNullText: "matchBraces workflowNullText = Some workflowNullText"
  by (simp add: matchBraces_def workflowNullText_def quoted_def)

lemma cleanResponse_workflowNullText: "cleanResponse workflowNullText = workflowNullText"
  by (simp add: cleanResponse_def stripFences_workflowNullText matchBraces_workflowNullText)

lemma stripFences_reasonEmptyText: "stripFences reasonEmptyText = reasonEmptyText"
  by (simp add: stripFences_def trim_def isSpace_def fence_def reasonEmptyText_def quoted_def
      dropNewline_def)

lemma matchBraces_reasonEmptyText: "matchBraces reasonEmptyText = Some reasonEmptyText"
  by (simp add: matchBraces_def reasonEmptyText_def quoted_def)

lemma cleanResponse_reasonEmptyText: "cleanResponse reasonEmptyText = reasonEmptyText"
  by (simp add: cleanResponse_def stripFences_reasonEmptyText matchBraces_reasonEmptyText)

lemma stripFences_fencedReasonText:
  "stripFences fencedReasonText = ''Here you go: '' @ reasonGivenText"
  by (simp add: stripFences_def trim_def isSpace_def fence_def fencedReasonText_def
      reasonGivenText_def quoted_def dropNewline_def)

lemma matchBraces_fencedReasonText:
  "matchBraces (''Here you go: '' @ reasonGivenText) = Some reasonGivenText"
  by (simp add: matchBraces_def reasonGivenText_def quoted_def)

lemma stripFences_plain: "stripFences ''not json'' = ''not json''"
  by (simp add: stripFences_def trim_def isSpace_def fence_def dropNewline_def)

lemma matchBraces_plain: "matchBraces ''not json'' = None"
  by (simp add: matchBraces_def)

lemma readJson_plain: "isl (readJson ''not json'')"
  by (simp add: reader_defs)

subsection \<open>The claims on the parser\<close>

text \<open>
  C6 as it is worded fails. The text \<open>{"automatable": true, "workflow": null}\<close> parses, the
  parsed object has a boolean \<open>automatable\<close> and has a \<open>workflow\<close> field, so none of the
  claim's four conditions holds; yet \<open>parseAndValidateResponse\<close> raises.
\<close>

theorem parseAndValidateResponse_presence_counterexample:
  "readJson (cleanResponse workflowNullText) =
     Inr (JObject [(''automatable'', JBool True), (''workflow'', JNull)]) \<and>
   ownProp (JObject [(''automatable'', JBool True), (''workflow'', JNull)]) ''automatable'' =
     Some (JBool True) \<and>
   ownProp (JObject [(''automatable'', JBool True), (''workflow'', JNull)]) ''workflow'' =
     Some JNull \<and>
   \<not> spec_refusedDecision (JObject [(''automatable'', JBool True), (''workflow'', JNull)]) \<and>
   isl (parseAndValidateResponse readJson workflowNullText) \<and>
   isl (parseAndValidateResponse readJson workflowNullText) \<noteq>
     (case readJson (cleanResponse workflowNullText) of
        Inl e \<Rightarrow> True
      | Inr parsed \<Rightarrow> spec_refusedDecision parsed)"
  by (simp add: parseAndValidateResponse_isl cleanResponse_workflowNullText
      readJson_workflowNullText ownProp_def spec_refusedDecision_def refusedDecision_def)

text \<open>
  C6, amended. For every raw text and every behaviour of \<^verbatim>\<open>JSON.parse\<close>: the text handed to
  the parser holds no code-fence marker; it is the span from the first opening brace to the
  last closing brace of the stripped text when there is such a span, and the stripped text
  itself otherwise. \<open>parseAndValidateResponse\<close> fails exactly when the parse fails, or the
  parsed value has no boolean \<open>automatable\<close>, or \<open>automatable\<close> is true and \<open>workflow\<close> is
  absent or falsy (\<open>null\<close>, \<open>false\<close>, \<open>0\<close>, the empty string), or \<open>automatable\<close> is false and
  \<open>reason\<close> is absent or falsy. Every failure is the one error
  \<open>Invalid JSON response from Gemini: ...\<close>, and a success returns the parsed value unchanged.
\<close>

theorem parseAndValidateResponse_contract:
  "\<not> sublist fence (cleanResponse response) \<and>
   (\<forall>m. braceSpan (stripFences response) m \<longrightarrow> cleanResponse response = m) \<and>
   ((\<forall>m. \<not> braceSpan (stripFences response) m) \<longrightarrow>
      cleanResponse response = stripFences response) \<and>
   isl (parseAndValidateResponse JSON_parse response) =
     (case JSON_parse (cleanResponse response) of
        Inl e \<Rightarrow> True
      | Inr parsed \<Rightarrow> refusedDecision parsed) \<and>
   (\<forall>e. parseAndValidateResponse JSON_parse response = Inl e \<longrightarrow>
      (\<exists>m. e = JsError (''Invalid JSON response from Gemini: '' @ m) None)) \<and>
   (\<forall>parsed. parseAndValidateResponse JSON_parse response = Inr parsed \<longrightarrow>
      JSON_parse (cleanResponse response) = Inr parsed)"
  using cleanResponse_no_fence [of response] cleanResponse_span [of response]
    cleanResponse_no_span [of response]
    parseAndValidateResponse_isl [of JSON_parse response]
    parseAndValidateResponse_Inl [of JSON_parse response]
    parseAndValidateResponse_Inr [of JSON_parse response]
  by blast

theorem parseAndValidateResponse_contract_witness:
  "braceSpan (stripFences fencedReasonText) reasonGivenText \<and>
   cleanResponse fencedReasonText = reasonGivenText \<and>
   \<not> sublist fence reasonGivenText \<and>
   parseAndValidateResponse readJson fencedReasonText =
     Inr (JObject [(''automatable'', JBool False), (''reason'', JString ''needs a human'')]) \<and>
   \<not> refusedDecision
     (JObject [(''automatable'', JBool False), (''reason'', JString ''needs a human'')]) \<and>
   (\<forall>m. \<not> braceSpan (stripFences ''not json'') m) \<and>
   cleanResponse ''not json'' = ''not json'' \<and>
   (\<exists>m. parseAndValidateResponse readJson ''not json'' =
      Inl (JsError (''Invalid JSON response from Gemini: '' @ m) None))"
proof -
  have span: "braceSpan (stripFences fencedReasonText) reasonGivenText"
    by (simp only: stripFences_fencedReasonText matchBraces_iff [symmetric]
        matchBraces_fencedReasonText)
  have nospan: "\<forall>m. \<not> braceSpan (stripFences ''not json'') m"
    by (simp add: stripFences_plain matchBraces_iff [symmetric] matchBraces_plain)
  note a = parseAndValidateResponse_contract [of fencedReasonText readJson]
  note b = parseAndValidateResponse_contract [of "''not json''" readJson]
  have clean: "cleanResponse fencedReasonText = reasonGivenText"
    using a span by blast
  have ok: "\<not> refusedDecision
     (JObject [(''automatable'', JBool False), (''reason'', JString ''needs a human'')])"
    by (simp add: refusedDecision_def ownProp_def)
  have "\<not> isl (parseAndValidateResponse readJson fencedReasonText)"
    using a ok by (simp add: clean readJson_reasonGivenText)
  then obtain v where v: "parseAndValidateResponse readJson fencedReasonText = Inr v"
    by (cases "parseAndValidateResponse readJson fencedReasonText") simp_all
  then have "readJson (cleanResponse fencedReasonText) = Inr v"
    using a by blast
  then have res: "parseAndValidateResponse readJson fencedReasonText =
     Inr (JObject [(''automatable'', JBool False), (''reason'', JString ''needs a human'')])"
    using v by (simp add: clean readJson_reasonGivenText)
  have clean': "cleanResponse ''not json'' = ''not json''"
    using b nospan by (simp add: stripFences_plain)
  have "isl (parseAndValidateResponse readJson ''not json'')"
    using b readJson_plain by (cases "readJson ''not json''") (simp_all add: clean')
  then obtain e where e: "parseAndValidateResponse readJson ''not json'' = Inl e"
    by (cases "parseAndValidateResponse readJson ''not json''") simp_all
  then have err: "\<exists>m. parseAndValidateResponse readJson ''not json'' =
      Inl (JsError (''Invalid JSON response from Gemini: '' @ m) None)"
    using b by blast
  have "\<not> sublist fence reasonGivenText"
    using a clean by simp
  then show ?thesis
    using span clean res ok nospan clean' err by blast
qed

text \<open>
  C10. The \<open>workflow\<close> and the \<open>reason\<close> field are tested by truthiness, not by presence:
  when the parsed object has \<open>automatable\<close> true and a \<open>workflow\<close> field that is \<open>null\<close>,
  \<open>false\<close>, \<open>0\<close> or the empty string, the field is there and the parser still raises the
  invalid-response error (missing workflow); likewise when \<open>automatable\<close> is false and the
  \<open>reason\<close> field is there but falsy (missing reason).
\<close>

theorem parseAndValidateResponse_truthiness:
  "(JSON_parse (cleanResponse response) = Inr (JObject props) \<and>
    map_of props ''automatable'' = Some (JBool True) \<and>
    map_of props ''workflow'' \<in> {Some JNull, Some (JBool False), Some (JNumber 0), Some (JString [])}
    \<longrightarrow> parseAndValidateResponse JSON_parse response =
          Inl (JsError (''Invalid JSON response from Gemini: '' @
                 ''Invalid response format: missing workflow for automatable task'') None)) \<and>
   (JSON_parse (cleanResponse response) = Inr (JObject props) \<and>
    map_of props ''automatable'' = Some (JBool False) \<and>
    map_of props ''reason'' \<in> {Some JNull, Some (JBool False), Some (JNumber 0), Some (JString [])}
    \<longrightarrow> parseAndValidateResponse JSON_parse response =
          Inl (JsError (''Invalid JSON response from Gemini: '' @
                 ''Invalid response format: missing reason for non-automatable task'') None))"
  by (auto simp: parseAndValidateResponse_def validateParsed_def getProp_def)

theorem parseAndValidateResponse_truthiness_witness:
  "readJson (cleanResponse workflowNullText) =
     Inr (JObject [(''automatable'', JBool True), (''workflow'', JNull)]) \<and>
   map_of [(''automatable'', JBool True), (''workflow'', JNull)] ''workflow'' = Some JNull \<and>
   parseAndValidateResponse readJson workflowNullText =
     Inl (JsError (''Invalid JSON response from Gemini: '' @
            ''Invalid response format: missing workflow for automatable task'') None) \<and>
   readJson (cleanResponse reasonEmptyText) =
     Inr (JObject [(''automatable'', JBool False), (''reason'', JString [])]) \<and>
   map_of [(''automatable'', JBool False), (''reason'', JString [])] ''reason'' =
     Some (JString []) \<and>
   parseAndValidateResponse readJson reasonEmptyText =
     Inl (JsError (''Invalid JSON response from Gemini: '' @
            ''Invalid response format: missing reason for non-automatable task'') None)"
  using
    parseAndValidateResponse_truthiness [of readJson workflowNullText
      "[(''automatable'', JBool True), (''workflow'', JNull)]"]
    parseAndValidateResponse_truthiness [of readJson reasonEmptyText
      "[(''automatable'', JBool False), (''reason'', JString [])]"]
  by (simp add: cleanResponse_workflowNullText readJson_workflowNullText
      cleanResponse_reasonEmptyText readJson_reasonEmptyText)

section \<open>The dispatcher: proofs\<close>

lemma map_of_setProp: "map_of (setProp k v props) = (map_of props)(k \<mapsto> v)"
  by (induction props) auto

lemma activeWorkflow_active: "ownProp (activeWorkflow workflow) ''active'' = Some (JBool True)"
  by (simp add: activeWorkflow_def ownProp_def map_of_setProp)

lemma activeWorkflow_keeps:
  "key \<noteq> ''active'' \<Longrightarrow>
     ownProp (activeWorkflow (Some (JObject props))) key = map_of props key"
  by (simp add: activeWorkflow_def ownProp_def map_of_setProp)

lemma axios_unbound: "''axios'' \<notin> set moduleBindings"
  by (simp add: moduleBindings_def)

lemma executeN8nWorkflow_no_key:
  "keyMissing key \<Longrightarrow>
     executeN8nWorkflow_in scope key eng workflow taskId =
       \<lparr>dispatched = Inl (JsError ''N8N_API_KEY not configured in environment variables'' None),
        sent = []\<rparr>"
  by (auto simp: keyMissing_def executeN8nWorkflow_in_def split: option.splits)

text \<open>With a key set, the dispatcher of the module throws the \<^verbatim>\<open>ReferenceError\<close> at its
  first \<^verbatim>\<open>axios.post\<close>: no request is sent, and it never returns.\<close>

lemma executeN8nWorkflow_unbound:
  "k \<noteq> [] \<Longrightarrow>
     executeN8nWorkflow (Some k) eng workflow taskId =
       \<lparr>dispatched = Inl (JsError ''axios is not defined'' None), sent = []\<rparr>"
  by (simp add: executeN8nWorkflow_def executeN8nWorkflow_in_def axiosPost_def axios_unbound)

lemma executeN8nWorkflow_fails: "isl (dispatched (executeN8nWorkflow key eng workflow taskId))"
proof (cases "keyMissing key")
  case True
  then show ?thesis
    by (simp add: executeN8nWorkflow_def executeN8nWorkflow_no_key)
next
  case False
  then obtain k where "key = Some k" and "k \<noteq> []"
    by (cases key) (auto simp: keyMissing_def)
  then show ?thesis by (simp add: executeN8nWorkflow_unbound)
qed

text \<open>
  The body in a scope that binds \<^verbatim>\<open>axios\<close> (the module with the missing import added): the
  first request is the creation of the workflow marked active; the dispatch succeeds exactly
  when that request succeeds, the identifier can be read off its answer and the execution
  request for that identifier succeeds too; when the execution request fails, its error is
  thrown as it is after exactly these two requests.
\<close>

lemma executeN8nWorkflow_in_first:
  "''axios'' \<in> set scope \<Longrightarrow> k \<noteq> [] \<Longrightarrow>
     take 1 (sent (executeN8nWorkflow_in scope (Some k) eng workflow taskId)) =
       [CreateWorkflow k (activeWorkflow workflow)]"
  by (simp add: executeN8nWorkflow_in_def axiosPost_def split: sum.splits)

lemma executeN8nWorkflow_in_success_iff:
  "''axios'' \<in> set scope \<Longrightarrow> k \<noteq> [] \<Longrightarrow>
     (dispatched (executeN8nWorkflow_in scope (Some k) eng workflow taskId) = Inr workflowId) =
     (\<exists>data. eng (CreateWorkflow k (activeWorkflow workflow)) = Inr data \<and>
        getProp data ''id'' = Inr workflowId \<and>
        (\<exists>acknowledgment. eng (ExecuteWorkflow k workflowId) = Inr acknowledgment))"
  by (auto simp: executeN8nWorkflow_in_def axiosPost_def split: sum.splits)

lemma executeN8nWorkflow_in_second_fails:
  "''axios'' \<in> set scope \<Longrightarrow> k \<noteq> [] \<Longrightarrow>
   eng (CreateWorkflow k (activeWorkflow workflow)) = Inr data \<Longrightarrow>
   getProp data ''id'' = Inr workflowId \<Longrightarrow> eng (ExecuteWorkflow k workflowId) = Inl error \<Longrightarrow>
     executeN8nWorkflow_in scope (Some k) eng workflow taskId =
       \<lparr>dispatched = Inl error,
        sent = [CreateWorkflow k (activeWorkflow workflow), ExecuteWorkflow k workflowId]\<rparr>"
  by (simp add: executeN8nWorkflow_in_def axiosPost_def)

lemma executeN8nWorkflow_in_first_fails:
  "''axios'' \<in> set scope \<Longrightarrow> k \<noteq> [] \<Longrightarrow>
   eng (CreateWorkflow k (activeWorkflow workflow)) = Inl error \<Longrightarrow>
     executeN8nWorkflow_in scope (Some k) eng workflow taskId =
       \<lparr>dispatched = Inl error, sent = [CreateWorkflow k (activeWorkflow workflow)]\<rparr>"
  by (simp add: executeN8nWorkflow_in_def axiosPost_def)

lemma activeWorkflow_sample:
  "activeWorkflow (Some sampleWorkflow) =
     JObject [(''name'', JString ''Daily report''), (''nodes'', JArray []), (''active'', JBool True)]"
  by (simp add: activeWorkflow_def sampleWorkflow_def)

lemma executeN8nWorkflow_in_accepting:
  "executeN8nWorkflow_in (''axios'' # moduleBindings) (Some ''secret'') acceptingEngine
      (Some sampleWorkflow) 7 =
     \<lparr>dispatched = Inr (Some (JString ''wf1'')),
      sent = [CreateWorkflow ''secret'' (activeWorkflow (Some sampleWorkflow)),
              ExecuteWorkflow ''secret'' (Some (JString ''wf1''))]\<rparr>"
  by (simp add: executeN8nWorkflow_in_def axiosPost_def acceptingEngine_def getProp_def)

lemma executeN8nWorkflow_in_refusing:
  "executeN8nWorkflow_in (''axios'' # moduleBindings) (Some ''secret'') refusingEngine
      (Some sampleWorkflow) 7 =
     \<lparr>dispatched = Inl (JsError ''Request failed with status code 500'' (Some 500)),
      sent = [CreateWorkflow ''secret'' (activeWorkflow (Some sampleWorkflow)),
              ExecuteWorkflow ''secret'' (Some (JString ''wf1''))]\<rparr>"
  by (simp add: executeN8nWorkflow_in_def axiosPost_def refusingEngine_def getProp_def)

text \<open>
  C7. Without a configured API key the dispatcher fails before any request is sent. With a
  key configured it does not submit the workflow: the module never imports \<^verbatim>\<open>axios\<close>, so
  the first \<^verbatim>\<open>axios.post\<close> throws \<open>axios is not defined\<close>, no request reaches the engine
  whatever the engine would answer, and the dispatch never succeeds. The body of the
  function with \<^verbatim>\<open>axios\<close> bound sends the creation request and then the execution request
  for the identifier returned, as the lemmas above show.
\<close>

theorem executeN8nWorkflow_sends_nothing:
  "executeN8nWorkflow None eng workflow taskId =
     \<lparr>dispatched = Inl (JsError ''N8N_API_KEY not configured in environment variables'' None),
      sent = []\<rparr> \<and>
   executeN8nWorkflow (Some ''secret'') eng workflow taskId =
     \<lparr>dispatched = Inl (JsError ''axios is not defined'' None), sent = []\<rparr> \<and>
   isl (dispatched (executeN8nWorkflow key eng workflow taskId)) \<and>
   sent (executeN8nWorkflow key eng workflow taskId) = [] \<and>
   executeN8nWorkflow_in (''axios'' # moduleBindings) (Some ''secret'') acceptingEngine
      (Some sampleWorkflow) 7 =
     \<lparr>dispatched = Inr (Some (JString ''wf1'')),
      sent = [CreateWorkflow ''secret'' (activeWorkflow (Some sampleWorkflow)),
              ExecuteWorkflow ''secret'' (Some (JString ''wf1''))]\<rparr>"
proof -
  have 1: "executeN8nWorkflow None eng workflow taskId =
     \<lparr>dispatched = Inl (JsError ''N8N_API_KEY not configured in environment variables'' None),
      sent = []\<rparr>"
    by (simp add: executeN8nWorkflow_def executeN8nWorkflow_no_key keyMissing_def)
  have 2: "executeN8nWorkflow (Some ''secret'') eng workflow taskId =
     \<lparr>dispatched = Inl (JsError ''axios is not defined'' None), sent = []\<rparr>"
    by (rule executeN8nWorkflow_unbound) simp
  have 4: "sent (executeN8nWorkflow key eng workflow taskId) = []"
  proof (cases "keyMissing key")
    case True
    then show ?thesis
      by (simp add: executeN8nWorkflow_def executeN8nWorkflow_no_key)
  next
    case False
    then obtain k where "key = Some k" and "k \<noteq> []"
      by (cases key) (auto simp: keyMissing_def)
    then show ?thesis by (simp add: executeN8nWorkflow_unbound)
  qed
  show ?thesis
    by (intro conjI) (fact 1 2 executeN8nWorkflow_fails 4 executeN8nWorkflow_in_accepting)+
qed

section \<open>The pipeline: proofs\<close>

lemma prismaUpdate_found:
  "tasks db i = Some t \<Longrightarrow>
     prismaUpdate db i change = Inr (change t, db\<lparr>tasks := (tasks db)(i \<mapsto> change t)\<rparr>)"
  by (simp add: prismaUpdate_def)

lemma prismaUpdate_missing:
  "tasks db i = None \<Longrightarrow> isl (prismaUpdate db i change)"
  by (simp add: prismaUpdate_def)

lemma recordError_found:
  "tasks db i = Some t \<Longrightarrow>
     recordError w db i error =
       db\<lparr>tasks := (tasks db)(i \<mapsto> t\<lparr>status := ''failed'',
              result := Some (ErrorPayload (message error) error (clock w)),
              task_type := Some ''processing_error''\<rparr>)\<rparr>"
  by (simp add: recordError_def prismaUpdate_found)

lemma recordError_missing: "tasks db i = None \<Longrightarrow> recordError w db i error = db"
  by (simp add: recordError_def prismaUpdate_def)

lemma markInProgress_reached:
  assumes "markInProgress db i = Inr (t1, db1)"
  shows "\<exists>t. tasks db i = Some t \<and>
           t1 = t\<lparr>status := ''in-progress'', task_type := Some ''gemini_processing''\<rparr> \<and>
           db1 = db\<lparr>tasks := (tasks db)(i \<mapsto> t1)\<rparr> \<and> tasks db1 i = Some t1"
  using assms by (auto simp: markInProgress_def prismaUpdate_def split: option.splits)

lemma processTask_client_fails:
  "outcome (callGemini api td (selectModel td)) = Inl error \<Longrightarrow>
     processTask api P td = processingFailed error"
  by (simp add: processTask_def)

lemma processTask_validator_fails:
  "outcome (callGemini api td (selectModel td)) = Inr (Some text) \<Longrightarrow>
   parseAndValidateResponse P text = Inl error \<Longrightarrow>
     processTask api P td = processingFailed error"
  by (simp add: processTask_def)

lemma fallback_reason:
  "getProp fallbackDecision ''reason'' = Inr (Some (JString ''Failed to process task with Gemini AI''))"
  by (simp add: fallbackDecision_def getProp_def)

lemma afterInProgress_processingFailed:
  assumes "processTask (model_api w) (json_parse w) td = processingFailed error"
    and "tasks db i = Some t"
  shows "afterInProgress w db i td =
     db\<lparr>tasks := (tasks db)(i \<mapsto> t\<lparr>status := ''failed'',
            result := Some (DeclinedPayload fallbackDecision ''google'' None
                        (JString ''Failed to process task with Gemini AI'') (clock w)),
            task_type := Some ''not_automatable''\<rparr>)\<rparr>"
  using assms(2)
  by (simp add: afterInProgress_def assms(1) processingFailed_def isAutomatable_def
      fallback_reason orElse_def prismaUpdate_found)

lemma afterInProgress_dispatch_fails:
  assumes "success (processTask (model_api w) (json_parse w) td)"
    and "getProp (gr_result (processTask (model_api w) (json_parse w) td)) ''automatable'' = Inr a"
    and "truthy a"
    and "getProp (gr_result (processTask (model_api w) (json_parse w) td)) ''workflow'' = Inr flow"
    and "dispatched (executeN8nWorkflow (apiKey w) (n8n w) flow i) = Inl error"
    and "tasks db i = Some t"
  shows "afterInProgress w db i td =
     db\<lparr>tasks := (tasks db)(i \<mapsto> t\<lparr>status := ''failed'',
            result := Some (ErrorPayload (message error) error (clock w)),
            task_type := Some ''processing_error''\<rparr>)\<rparr>"
  using assms
  by (simp add: afterInProgress_def isAutomatable_def Let_def recordError_found)

lemma afterInProgress_terminal:
  assumes "tasks db i = Some t"
  shows "\<exists>t'. afterInProgress w db i td = db\<lparr>tasks := (tasks db)(i \<mapsto> t')\<rparr> \<and>
           (status t' = ''completed'' \<or> status t' = ''failed'') \<and> result t' \<noteq> None"
  using assms
  by (auto simp: afterInProgress_def Let_def recordError_found prismaUpdate_found
      split: sum.splits bool.splits)

text \<open>As the dispatcher of the module always throws, no run ends completed: the terminal
  write of every run sets the task to failed.\<close>

lemma recordError_failed:
  assumes "tasks db i = Some t"
  shows "\<exists>t'. recordError w db i error = db\<lparr>tasks := (tasks db)(i \<mapsto> t')\<rparr> \<and>
           status t' = ''failed'' \<and> result t' \<noteq> None"
  unfolding recordError_found [OF assms] by (intro exI conjI) (rule refl, simp_all)

lemma afterInProgress_failed:
  assumes "tasks db i = Some t"
  shows "\<exists>t'. afterInProgress w db i td = db\<lparr>tasks := (tasks db)(i \<mapsto> t')\<rparr> \<and>
           status t' = ''failed'' \<and> result t' \<noteq> None"
proof -
  define gr where "gr = processTask (model_api w) (json_parse w) td"
  note fail = recordError_failed [OF assms, of w]
  show ?thesis
  proof (cases "isAutomatable gr")
    case (Inl e)
    then show ?thesis
      using fail [of e] by (simp add: afterInProgress_def gr_def [symmetric])
  next
    case (Inr b)
    show ?thesis
    proof (cases b)
      case True
      show ?thesis
      proof (cases "getProp (gr_result gr) ''workflow''")
        case (Inl e)
        then show ?thesis
          using fail [of e] Inr True by (simp add: afterInProgress_def gr_def [symmetric])
      next
        case flow: (Inr flow)
        show ?thesis
        proof (cases "dispatched (executeN8nWorkflow (apiKey w) (n8n w) flow i)")
          case (Inl e)
          then show ?thesis
            using fail [of e] Inr True flow
            by (simp add: afterInProgress_def gr_def [symmetric])
        next
          case (Inr workflowId)
          then show ?thesis
            using executeN8nWorkflow_fails [of "apiKey w" "n8n w" flow i] by simp
        qed
      qed
    next
      case False
      show ?thesis
      proof (cases "getProp (gr_result gr) ''reason''")
        case (Inl e)
        then show ?thesis
          using fail [of e] Inr False by (simp add: afterInProgress_def gr_def [symmetric])
      next
        case stated: (Inr stated)
        have "afterInProgress w db i td =
            db\<lparr>tasks := (tasks db)(i \<mapsto> t\<lparr>status := ''failed'',
              result := Some (DeclinedPayload (gr_result gr) ''google'' (gr_model gr)
                (orElse stated (JString ''Gemini AI processing failed'')) (clock w)),
              task_type := Some ''not_automatable''\<rparr>)\<rparr>"
          using Inr False stated
          by (simp add: afterInProgress_def gr_def [symmetric] prismaUpdate_found [OF assms])
        then show ?thesis
          by (intro exI conjI) (assumption, simp_all)
      qed
    qed
  qed
qed

subsection \<open>The result and the status\<close>

lemma processTaskWithGemini_reached:
  assumes "markInProgress db i = Inr (t1, db1)"
  shows "processTaskWithGemini w db i td mail = afterInProgress w db1 i td"
  using assms by (simp add: processTaskWithGemini_def)

lemma consistent_update:
  "consistent db \<Longrightarrow> resultMatchesStatus t \<Longrightarrow>
     consistent (db\<lparr>tasks := (tasks db)(i \<mapsto> t)\<rparr>)"
  by (simp add: consistent_def)

lemma consistent_update_iff:
  "consistent db \<Longrightarrow>
     consistent (db\<lparr>tasks := (tasks db)(i \<mapsto> t)\<rparr>) = resultMatchesStatus t"
  by (auto simp: consistent_def)

lemma terminal_matches:
  "(status t = ''completed'' \<or> status t = ''failed'') \<Longrightarrow> result t \<noteq> None \<Longrightarrow>
     resultMatchesStatus t"
  by (simp add: resultMatchesStatus_def)

lemma consistent_afterInProgress:
  assumes "consistent db" and "tasks db i = Some t"
  shows "consistent (afterInProgress w db i td)"
proof -
  from afterInProgress_terminal [OF assms(2), of w td] obtain t'
    where "afterInProgress w db i td = db\<lparr>tasks := (tasks db)(i \<mapsto> t')\<rparr>"
      and "status t' = ''completed'' \<or> status t' = ''failed''" and "result t' \<noteq> None"
    by blast
  then show ?thesis
    using consistent_update [OF assms(1) terminal_matches] by simp
qed

lemma consistent_markInProgress:
  assumes "consistent db" and "markInProgress db i = Inr (t1, db1)"
  shows "\<forall>j u. j \<noteq> i \<longrightarrow> tasks db1 j = Some u \<longrightarrow> resultMatchesStatus u"
  using assms markInProgress_reached [OF assms(2)] by (auto simp: consistent_def)

lemma consistent_processTaskWithGemini:
  assumes "consistent db"
  shows "consistent (processTaskWithGemini w db i td mail)"
proof (cases "tasks db i")
  case None
  then show ?thesis
    using assms
    by (simp add: processTaskWithGemini_def markInProgress_def prismaUpdate_def
        recordError_missing)
next
  case (Some t)
  define t1 where "t1 = t\<lparr>status := ''in-progress'', task_type := Some ''gemini_processing''\<rparr>"
  define db1 where "db1 = db\<lparr>tasks := (tasks db)(i \<mapsto> t1)\<rparr>"
  have m: "markInProgress db i = Inr (t1, db1)"
    using Some by (simp add: markInProgress_def prismaUpdate_found t1_def db1_def)
  have t: "tasks db1 i = Some t1" by (simp add: db1_def)
  from afterInProgress_terminal [OF t, of w td] obtain t'
    where a: "afterInProgress w db1 i td = db1\<lparr>tasks := (tasks db1)(i \<mapsto> t')\<rparr>"
      and s: "status t' = ''completed'' \<or> status t' = ''failed''" and r: "result t' \<noteq> None"
    by blast
  have "db1\<lparr>tasks := (tasks db1)(i \<mapsto> t')\<rparr> = db\<lparr>tasks := (tasks db)(i \<mapsto> t')\<rparr>"
    by (simp add: db1_def)
  then have "processTaskWithGemini w db i td mail = db\<lparr>tasks := (tasks db)(i \<mapsto> t')\<rparr>"
    using processTaskWithGemini_reached [OF m] a by simp
  then show ?thesis
    using consistent_update [OF assms terminal_matches [OF s r]] by simp
qed

lemma consistent_createTask:
  assumes "consistent db"
  shows "consistent (fst (snd (createTask db mail text uid)))"
  using assms
  by (auto simp: createTask_def prismaCreate_def Let_def consistent_def resultMatchesStatus_def)

lemma consistent_retryTask:
  assumes "consistent db"
  shows "consistent (fst (snd (retryTask db mail i)))"
  using assms
  by (auto simp: retryTask_def findUnique_def prismaUpdate_def consistent_def
      resultMatchesStatus_def split: option.splits)

lemma patchStatus_changes_status_only:
  assumes "patchStatus db mail i s = (TaskResponse 200 t', db')"
  shows "\<exists>t. tasks db i = Some t \<and> t' = t\<lparr>status := s\<rparr> \<and>
           db' = db\<lparr>tasks := (tasks db)(i \<mapsto> t')\<rparr>"
  using assms
  by (auto simp: patchStatus_def findUnique_def prismaUpdate_def
      split: option.splits if_splits)

text \<open>What each write does to the task it touches, whatever the store held before.\<close>

lemma createTask_write:
  assumes "createTask db mail description uid = (TaskResponse 201 t, dbc, started)"
  shows "tasks dbc (task_id t) = Some t \<and> status t = ''pending'' \<and> result t = None \<and>
         resultMatchesStatus t \<and> onlyChanges db dbc (task_id t)"
  using assms
  by (auto simp: createTask_def prismaCreate_def Let_def resultMatchesStatus_def onlyChanges_def
      split: if_splits)

lemma retryTask_write:
  assumes "retryTask db mail i = (MessageResponse code msg, dbr, started)"
  shows "\<exists>t'. tasks dbr i = Some t' \<and> status t' = ''pending'' \<and> result t' = None \<and>
           resultMatchesStatus t' \<and> onlyChanges db dbr i"
  using assms
  by (auto simp: retryTask_def findUnique_def prismaUpdate_def resultMatchesStatus_def
      onlyChanges_def split: option.splits if_splits)

lemma afterInProgress_write:
  assumes "tasks db i = Some t"
  shows "\<exists>t'. tasks (afterInProgress w db i td) i = Some t' \<and>
           (status t' = ''completed'' \<or> status t' = ''failed'') \<and> result t' \<noteq> None \<and>
           resultMatchesStatus t' \<and> onlyChanges db (afterInProgress w db i td) i"
proof -
  from afterInProgress_terminal [OF assms, of w td] obtain t'
    where a: "afterInProgress w db i td = db\<lparr>tasks := (tasks db)(i \<mapsto> t')\<rparr>"
      and s: "status t' = ''completed'' \<or> status t' = ''failed''" and r: "result t' \<noteq> None"
    by (elim exE conjE)
  have 1: "tasks (afterInProgress w db i td) i = Some t'" by (simp add: a)
  have 2: "onlyChanges db (afterInProgress w db i td) i"
    by (simp add: a onlyChanges_def)
  show ?thesis
    by (intro exI [of _ t'] conjI) (fact 1 s r terminal_matches [OF s r] 2)+
qed

lemma markInProgress_write:
  assumes "markInProgress db i = Inr (started, dbs)"
  shows "\<exists>t. tasks db i = Some t \<and> tasks dbs i = Some started \<and>
           status started = ''in-progress'' \<and> result started = result t \<and>
           resultMatchesStatus started = (result t = None) \<and> onlyChanges db dbs i"
proof -
  from markInProgress_reached [OF assms] obtain t where t: "tasks db i = Some t"
    and s: "started = t\<lparr>status := ''in-progress'', task_type := Some ''gemini_processing''\<rparr>"
    and d: "dbs = db\<lparr>tasks := (tasks db)(i \<mapsto> started)\<rparr>"
    by blast
  have "resultMatchesStatus started = (result t = None)"
    by (simp add: s resultMatchesStatus_def)
  moreover have "onlyChanges db dbs i" by (simp add: d onlyChanges_def)
  moreover have "tasks dbs i = Some started" by (simp add: d)
  ultimately show ?thesis using t s by (intro exI [of _ t]) simp
qed

lemma processTaskWithGemini_write:
  assumes "tasks db i = Some t"
  shows "\<exists>t'. tasks (processTaskWithGemini w db i td mail) i = Some t' \<and>
           (status t' = ''completed'' \<or> status t' = ''failed'') \<and> result t' \<noteq> None \<and>
           resultMatchesStatus t' \<and> onlyChanges db (processTaskWithGemini w db i td mail) i"
proof -
  define t1 where "t1 = t\<lparr>status := ''in-progress'', task_type := Some ''gemini_processing''\<rparr>"
  define db1 where "db1 = db\<lparr>tasks := (tasks db)(i \<mapsto> t1)\<rparr>"
  have m: "markInProgress db i = Inr (t1, db1)"
    using assms by (simp add: markInProgress_def prismaUpdate_found t1_def db1_def)
  have t: "tasks db1 i = Some t1" by (simp add: db1_def)
  have run: "processTaskWithGemini w db i td mail = afterInProgress w db1 i td"
    by (rule processTaskWithGemini_reached [OF m])
  from afterInProgress_write [OF t, of w td] obtain t'
    where 1: "tasks (afterInProgress w db1 i td) i = Some t'"
      and 2: "status t' = ''completed'' \<or> status t' = ''failed''"
      and 3: "result t' \<noteq> None"
      and 4: "resultMatchesStatus t'" and o: "onlyChanges db1 (afterInProgress w db1 i td) i"
    by (elim exE conjE)
  have 5: "onlyChanges db (afterInProgress w db1 i td) i"
    using o by (simp add: onlyChanges_def db1_def)
  show ?thesis
    unfolding run by (intro exI [of _ t'] conjI) (fact 1 2 3 4 5)+
qed

lemma patchStatus_write:
  assumes "patchStatus db mail i s = (TaskResponse 200 patched, dbp)"
  shows "\<exists>t. tasks db i = Some t \<and> patched = t\<lparr>status := s\<rparr> \<and> tasks dbp i = Some patched \<and>
           result patched = result t \<and>
           resultMatchesStatus patched =
             ((result t \<noteq> None) = (s = ''completed'' \<or> s = ''failed'')) \<and>
           onlyChanges db dbp i"
proof -
  from patchStatus_changes_status_only [OF assms] obtain t
    where t: "tasks db i = Some t" and p: "patched = t\<lparr>status := s\<rparr>"
      and d: "dbp = db\<lparr>tasks := (tasks db)(i \<mapsto> patched)\<rparr>"
    by blast
  have 1: "resultMatchesStatus patched =
      ((result t \<noteq> None) = (s = ''completed'' \<or> s = ''failed''))"
    by (simp add: p resultMatchesStatus_def)
  have 2: "onlyChanges db dbp i" by (simp add: d onlyChanges_def)
  have 3: "tasks dbp i = Some patched" by (simp add: d)
  have 4: "result patched = result t" by (simp add: p)
  show ?thesis
    by (intro exI [of _ t] conjI) (fact t p 3 4 1 2)+
qed

subsection \<open>The runs of the examples\<close>

lemma oneTaskStore_eq: "oneTaskStore = \<lparr>tasks = [1 \<mapsto> annsTask], nextId = 2\<rparr>"
  by (simp add: oneTaskStore_def createTask_def prismaCreate_def emptyStore_def annsTask_def
      trim_def isSpace_def Let_def)

lemma consistent_oneTaskStore: "consistent oneTaskStore"
  by (simp add: oneTaskStore_eq consistent_def resultMatchesStatus_def annsTask_def)

lemma markInProgress_oneTaskStore:
  "markInProgress oneTaskStore 1 =
     Inr (annsTask\<lparr>status := ''in-progress'', task_type := Some ''gemini_processing''\<rparr>,
          oneTaskStore\<lparr>tasks := (tasks oneTaskStore)(1 \<mapsto>
            annsTask\<lparr>status := ''in-progress'', task_type := Some ''gemini_processing''\<rparr>)\<rparr>)"
  by (simp add: markInProgress_def prismaUpdate_def oneTaskStore_eq)

lemma callGemini_downWorld:
  "outcome (callGemini (model_api downWorld) td (selectModel td)) =
     Inl (JsError ''Failed to call Gemini API: fetch failed'' None)"
  by (simp add: callGemini_is_second callGemini_second_def downWorld_def)

lemma callGemini_garbledWorld:
  "outcome (callGemini (model_api garbledWorld) td (selectModel td)) = Inr (Some ''not json'')"
  by (simp add: callGemini_is_second callGemini_second_def garbledWorld_def)

lemma callGemini_refusedWorld:
  "outcome (callGemini (model_api refusedWorld) td (selectModel td)) = Inr (Some automatableText)"
  by (simp add: callGemini_is_second callGemini_second_def refusedWorld_def)

lemma cleanResponse_automatableText: "cleanResponse automatableText = automatableText"
  by (simp add: cleanResponse_def stripFences_def trim_def isSpace_def fence_def
      automatableText_def quoted_def dropNewline_def matchBraces_def)

lemma readJson_automatableText:
  "readJson automatableText =
     Inr (JObject [(''automatable'', JBool True),
                   (''workflow'', JObject [(''name'', JString ''Daily report''),
                                           (''nodes'', JArray [])])])"
  by (simp add: reader_defs automatableText_def)

lemma parse_automatableText:
  "parseAndValidateResponse readJson automatableText =
     Inr (JObject [(''automatable'', JBool True),
                   (''workflow'', JObject [(''name'', JString ''Daily report''),
                                           (''nodes'', JArray [])])])"
  by (simp add: parseAndValidateResponse_def cleanResponse_automatableText
      readJson_automatableText validateParsed_def getProp_def)

lemma parse_garbled: "isl (parseAndValidateResponse readJson ''not json'')"
  using readJson_plain
  by (cases "readJson ''not json''")
    (simp_all add: parseAndValidateResponse_def cleanResponse_def stripFences_plain
      matchBraces_plain)

lemma processTask_refusedWorld:
  "processTask (model_api refusedWorld) (json_parse refusedWorld) td =
     \<lparr>success = True, gr_provider = Some ''google'', gr_model = Some (selectModel td),
      gr_error = None,
      gr_result = JObject [(''automatable'', JBool True),
                   (''workflow'', JObject [(''name'', JString ''Daily report''),
                                           (''nodes'', JArray [])])]\<rparr>"
  using callGemini_refusedWorld [of td]
  by (simp add: processTask_def parse_automatableText refusedWorld_def)

lemma dispatch_refusedWorld:
  "dispatched (executeN8nWorkflow (apiKey refusedWorld) (n8n refusedWorld)
      (Some (JObject [(''name'', JString ''Daily report''), (''nodes'', JArray [])])) 1) =
     Inl (JsError ''axios is not defined'' None)"
  by (simp add: executeN8nWorkflow_unbound refusedWorld_def)

text \<open>A retry that overtakes a run in flight leaves the task in-progress with the result
  of the overtaken run.\<close>

lemma storeAfterFirstMark_eq:
  "storeAfterFirstMark =
     \<lparr>tasks = [1 \<mapsto> annsTask\<lparr>status := ''in-progress'',
                              task_type := Some ''gemini_processing''\<rparr>], nextId = 2\<rparr>"
  unfolding storeAfterFirstMark_def markInProgress_oneTaskStore
  by (simp add: oneTaskStore_eq)

lemma retry_in_flight:
  "retryTask storeAfterFirstMark ''ann@example.org'' 1 =
     (MessageResponse 200 ''Task retry initiated with Gemini AI'',
      \<lparr>tasks = [1 \<mapsto> annsTask\<lparr>status := ''pending'', task_type := Some ''retry''\<rparr>],
       nextId = 2\<rparr>,
      Some (1, ''water the plants'', ''ann@example.org''))"
  by (simp add: retryTask_def findUnique_def prismaUpdate_def storeAfterFirstMark_eq annsTask_def)

lemma storeAfterRetry_eq:
  "storeAfterRetry =
     \<lparr>tasks = [1 \<mapsto> annsTask\<lparr>status := ''pending'', task_type := Some ''retry''\<rparr>],
      nextId = 2\<rparr>"
  unfolding storeAfterRetry_def retry_in_flight by simp

lemma storeAfterFirstRun_task:
  "tasks storeAfterFirstRun 1 =
     Some (annsTask\<lparr>status := ''failed'',
             result := Some (DeclinedPayload fallbackDecision ''google'' None
                         (JString ''Failed to process task with Gemini AI'')
                         ''2025-10-01T08:00:00.000Z''),
             task_type := Some ''not_automatable''\<rparr>)"
proof -
  have p: "processTask (model_api downWorld) (json_parse downWorld) ''water the plants'' =
      processingFailed (JsError ''Failed to call Gemini API: fetch failed'' None)"
    by (rule processTask_client_fails) (rule callGemini_downWorld)
  have t: "tasks storeAfterRetry 1 =
      Some (annsTask\<lparr>status := ''pending'', task_type := Some ''retry''\<rparr>)"
    by (simp add: storeAfterRetry_eq)
  show ?thesis
    unfolding storeAfterFirstRun_def afterInProgress_processingFailed [OF p t]
    by (simp add: downWorld_def)
qed

lemma interleaved_retry_breaks_equivalence:
  "markInProgress storeAfterFirstRun 1 =
     Inr (annsTask\<lparr>status := ''in-progress'',
            result := Some (DeclinedPayload fallbackDecision ''google'' None
                        (JString ''Failed to process task with Gemini AI'')
                        ''2025-10-01T08:00:00.000Z''),
            task_type := Some ''gemini_processing''\<rparr>,
          storeAfterFirstRun\<lparr>tasks := (tasks storeAfterFirstRun)(1 \<mapsto>
            annsTask\<lparr>status := ''in-progress'',
              result := Some (DeclinedPayload fallbackDecision ''google'' None
                          (JString ''Failed to process task with Gemini AI'')
                          ''2025-10-01T08:00:00.000Z''),
              task_type := Some ''gemini_processing''\<rparr>)\<rparr>) \<and>
   \<not> resultMatchesStatus
     (annsTask\<lparr>status := ''in-progress'',
        result := Some (DeclinedPayload fallbackDecision ''google'' None
                    (JString ''Failed to process task with Gemini AI'')
                    ''2025-10-01T08:00:00.000Z''),
        task_type := Some ''gemini_processing''\<rparr>)"
  unfolding markInProgress_def prismaUpdate_found [OF storeAfterFirstRun_task]
  by (simp add: resultMatchesStatus_def annsTask_def)

lemma createTask_catTask:
  "createTask oneTaskStore ''ann@example.org'' ''feed the cat'' None =
     (TaskResponse 201 catTask,
      \<lparr>tasks = [1 \<mapsto> annsTask, 2 \<mapsto> catTask], nextId = 3\<rparr>,
      Some (2, ''feed the cat'', ''ann@example.org''))"
  by (simp add: createTask_def prismaCreate_def oneTaskStore_eq catTask_def trim_def isSpace_def
      Let_def)

lemma retryTask_oneTaskStore:
  "retryTask oneTaskStore ''ann@example.org'' 1 =
     (MessageResponse 200 ''Task retry initiated with Gemini AI'',
      \<lparr>tasks = [1 \<mapsto> annsTask\<lparr>status := ''pending'', task_type := Some ''retry''\<rparr>],
       nextId = 2\<rparr>,
      Some (1, ''water the plants'', ''ann@example.org''))"
  by (simp add: retryTask_def findUnique_def prismaUpdate_def oneTaskStore_eq annsTask_def)

lemma patchStatus_oneTaskStore:
  "patchStatus oneTaskStore ''ann@example.org'' 1 ''in-progress'' =
     (TaskResponse 200 (annsTask\<lparr>status := ''in-progress''\<rparr>),
      oneTaskStore\<lparr>tasks := (tasks oneTaskStore)(1 \<mapsto> annsTask\<lparr>status := ''in-progress''\<rparr>)\<rparr>)"
  by (simp add: patchStatus_def findUnique_def prismaUpdate_def oneTaskStore_eq annsTask_def)

lemma tasks_oneTaskStore: "tasks oneTaskStore 1 = Some annsTask"
  by (simp add: oneTaskStore_eq)


subsection \<open>The claims on the pipeline\<close>

text \<open>
  C2 as it is worded fails. The task of the one-task store reaches in-progress and the LLM
  client fails (the model is down); the task ends failed, but with the payload of the
  declined case (decision, provider, stated reason, timestamp; type \<open>not_automatable\<close>), not
  with an error message and a trace.
\<close>

theorem pipeline_client_failure_counterexample:
  "\<not> isl (markInProgress oneTaskStore 1) \<and>
   isl (outcome (callGemini (model_api downWorld) ''water the plants''
                   (selectModel ''water the plants''))) \<and>
   tasks (processTaskWithGemini downWorld oneTaskStore 1 ''water the plants'' ''ann@example.org'') 1 =
     Some (annsTask\<lparr>status := ''failed'',
             result := Some (DeclinedPayload fallbackDecision ''google'' None
                         (JString ''Failed to process task with Gemini AI'')
                         ''2025-10-01T08:00:00.000Z''),
             task_type := Some ''not_automatable''\<rparr>) \<and>
   isDeclinedPayload (DeclinedPayload fallbackDecision ''google'' None
      (JString ''Failed to process task with Gemini AI'') ''2025-10-01T08:00:00.000Z'') \<and>
   \<not> isErrorPayload (DeclinedPayload fallbackDecision ''google'' None
      (JString ''Failed to process task with Gemini AI'') ''2025-10-01T08:00:00.000Z'')"
proof -
  have p: "processTask (model_api downWorld) (json_parse downWorld) ''water the plants'' =
      processingFailed (JsError ''Failed to call Gemini API: fetch failed'' None)"
    by (rule processTask_client_fails) (rule callGemini_downWorld)
  have "tasks (processTaskWithGemini downWorld oneTaskStore 1 ''water the plants''
                 ''ann@example.org'') 1 =
     Some (annsTask\<lparr>status := ''failed'',
             result := Some (DeclinedPayload fallbackDecision ''google'' None
                         (JString ''Failed to process task with Gemini AI'')
                         ''2025-10-01T08:00:00.000Z''),
             task_type := Some ''not_automatable''\<rparr>)"
    unfolding processTaskWithGemini_reached [OF markInProgress_oneTaskStore]
    by (subst afterInProgress_processingFailed [OF p, where
          t = "annsTask\<lparr>status := ''in-progress'', task_type := Some ''gemini_processing''\<rparr>"])
      (simp_all add: downWorld_def)
  moreover have "\<not> isl (markInProgress oneTaskStore 1)"
    unfolding markInProgress_oneTaskStore by simp
  moreover have "isl (outcome (callGemini (model_api downWorld) ''water the plants''
                   (selectModel ''water the plants'')))"
    unfolding callGemini_downWorld by simp
  moreover have "isDeclinedPayload (DeclinedPayload fallbackDecision ''google'' None
      (JString ''Failed to process task with Gemini AI'') ''2025-10-01T08:00:00.000Z'')"
    by (simp add: isDeclinedPayload_def)
  moreover have "\<not> isErrorPayload (DeclinedPayload fallbackDecision ''google'' None
      (JString ''Failed to process task with Gemini AI'') ''2025-10-01T08:00:00.000Z'')"
    by (simp add: isErrorPayload_def)
  ultimately show ?thesis by blast
qed

text \<open>
  C2, amended. For every pipeline run that has reached in-progress: when the Dispatcher
  fails (the LLM client and the Validator succeeded with a truthy \<open>automatable\<close>), the task
  is set to failed with the error's message, its trace and a timestamp (type
  \<open>processing_error\<close>); when the LLM client or the Validator fails, \<open>processTask\<close> absorbs the
  failure and the task is set to failed with the declined-case payload: the fallback
  decision, the provider, the reason \<open>Failed to process task with Gemini AI\<close> and a timestamp
  (type \<open>not_automatable\<close>, no model identifier).
\<close>

theorem pipeline_failure_payloads:
  "markInProgress db taskId = Inr (started, dbs) \<longrightarrow>
     (success (processTask (model_api w) (json_parse w) td) \<and>
      getProp (gr_result (processTask (model_api w) (json_parse w) td)) ''automatable'' = Inr a \<and>
      truthy a \<and>
      getProp (gr_result (processTask (model_api w) (json_parse w) td)) ''workflow'' = Inr flow \<and>
      dispatched (executeN8nWorkflow (apiKey w) (n8n w) flow taskId) = Inl error
      \<longrightarrow> tasks (processTaskWithGemini w db taskId td mail) taskId =
            Some (started\<lparr>status := ''failed'',
                    result := Some (ErrorPayload (message error) error (clock w)),
                    task_type := Some ''processing_error''\<rparr>)) \<and>
     (outcome (callGemini (model_api w) td (selectModel td)) = Inl error
      \<longrightarrow> tasks (processTaskWithGemini w db taskId td mail) taskId =
            Some (started\<lparr>status := ''failed'',
                    result := Some (DeclinedPayload fallbackDecision ''google'' None
                                (JString ''Failed to process task with Gemini AI'') (clock w)),
                    task_type := Some ''not_automatable''\<rparr>)) \<and>
     (outcome (callGemini (model_api w) td (selectModel td)) = Inr (Some answer) \<and>
      parseAndValidateResponse (json_parse w) answer = Inl error
      \<longrightarrow> tasks (processTaskWithGemini w db taskId td mail) taskId =
            Some (started\<lparr>status := ''failed'',
                    result := Some (DeclinedPayload fallbackDecision ''google'' None
                                (JString ''Failed to process task with Gemini AI'') (clock w)),
                    task_type := Some ''not_automatable''\<rparr>))"
proof
  assume m: "markInProgress db taskId = Inr (started, dbs)"
  from markInProgress_reached [OF m] have t: "tasks dbs taskId = Some started" by blast
  note run = processTaskWithGemini_reached [OF m, of w td mail]
  have d: "success (processTask (model_api w) (json_parse w) td) \<and>
      getProp (gr_result (processTask (model_api w) (json_parse w) td)) ''automatable'' = Inr a \<and>
      truthy a \<and>
      getProp (gr_result (processTask (model_api w) (json_parse w) td)) ''workflow'' = Inr flow \<and>
      dispatched (executeN8nWorkflow (apiKey w) (n8n w) flow taskId) = Inl error
      \<longrightarrow> tasks (processTaskWithGemini w db taskId td mail) taskId =
            Some (started\<lparr>status := ''failed'',
                    result := Some (ErrorPayload (message error) error (clock w)),
                    task_type := Some ''processing_error''\<rparr>)"
  proof
    assume h: "success (processTask (model_api w) (json_parse w) td) \<and>
      getProp (gr_result (processTask (model_api w) (json_parse w) td)) ''automatable'' = Inr a \<and>
      truthy a \<and>
      getProp (gr_result (processTask (model_api w) (json_parse w) td)) ''workflow'' = Inr flow \<and>
      dispatched (executeN8nWorkflow (apiKey w) (n8n w) flow taskId) = Inl error"
    show "tasks (processTaskWithGemini w db taskId td mail) taskId =
            Some (started\<lparr>status := ''failed'',
                    result := Some (ErrorPayload (message error) error (clock w)),
                    task_type := Some ''processing_error''\<rparr>)"
      unfolding run
      using afterInProgress_dispatch_fails [of w td a flow taskId error dbs started] h t by simp
  qed
  have declined: "processTask (model_api w) (json_parse w) td = processingFailed e \<Longrightarrow>
      tasks (processTaskWithGemini w db taskId td mail) taskId =
        Some (started\<lparr>status := ''failed'',
                result := Some (DeclinedPayload fallbackDecision ''google'' None
                            (JString ''Failed to process task with Gemini AI'') (clock w)),
                task_type := Some ''not_automatable''\<rparr>)" for e
    unfolding run using afterInProgress_processingFailed [of w td e dbs taskId started] t by simp
  have c: "outcome (callGemini (model_api w) td (selectModel td)) = Inl error
      \<longrightarrow> tasks (processTaskWithGemini w db taskId td mail) taskId =
            Some (started\<lparr>status := ''failed'',
                    result := Some (DeclinedPayload fallbackDecision ''google'' None
                                (JString ''Failed to process task with Gemini AI'') (clock w)),
                    task_type := Some ''not_automatable''\<rparr>)"
    using declined processTask_client_fails by blast
  have v: "outcome (callGemini (model_api w) td (selectModel td)) = Inr (Some answer) \<and>
      parseAndValidateResponse (json_parse w) answer = Inl error
      \<longrightarrow> tasks (processTaskWithGemini w db taskId td mail) taskId =
            Some (started\<lparr>status := ''failed'',
                    result := Some (DeclinedPayload fallbackDecision ''google'' None
                                (JString ''Failed to process task with Gemini AI'') (clock w)),
                    task_type := Some ''not_automatable''\<rparr>)"
    using declined processTask_validator_fails by blast
  show "(success (processTask (model_api w) (json_parse w) td) \<and>
      getProp (gr_result (processTask (model_api w) (json_parse w) td)) ''automatable'' = Inr a \<and>
      truthy a \<and>
      getProp (gr_result (processTask (model_api w) (json_parse w) td)) ''workflow'' = Inr flow \<and>
      dispatched (executeN8nWorkflow (apiKey w) (n8n w) flow taskId) = Inl error
      \<longrightarrow> tasks (processTaskWithGemini w db taskId td mail) taskId =
            Some (started\<lparr>status := ''failed'',
                    result := Some (ErrorPayload (message error) error (clock w)),
                    task_type := Some ''processing_error''\<rparr>)) \<and>
     (outcome (callGemini (model_api w) td (selectModel td)) = Inl error
      \<longrightarrow> tasks (processTaskWithGemini w db taskId td mail) taskId =
            Some (started\<lparr>status := ''failed'',
                    result := Some (DeclinedPayload fallbackDecision ''google'' None
                                (JString ''Failed to process task with Gemini AI'') (clock w)),
                    task_type := Some ''not_automatable''\<rparr>)) \<and>
     (outcome (callGemini (model_api w) td (selectModel td)) = Inr (Some answer) \<and>
      parseAndValidateResponse (json_parse w) answer = Inl error
      \<longrightarrow> tasks (processTaskWithGemini w db taskId td mail) taskId =
            Some (started\<lparr>status := ''failed'',
                    result := Some (DeclinedPayload fallbackDecision ''google'' None
                                (JString ''Failed to process task with Gemini AI'') (clock w)),
                    task_type := Some ''not_automatable''\<rparr>))"
    using d c v by blast
qed

theorem pipeline_failure_payloads_witness:
  "markInProgress oneTaskStore 1 =
     Inr (annsTask\<lparr>status := ''in-progress'', task_type := Some ''gemini_processing''\<rparr>,
          oneTaskStore\<lparr>tasks := (tasks oneTaskStore)(1 \<mapsto>
            annsTask\<lparr>status := ''in-progress'', task_type := Some ''gemini_processing''\<rparr>)\<rparr>) \<and>
   dispatched (executeN8nWorkflow (apiKey refusedWorld) (n8n refusedWorld)
      (Some (JObject [(''name'', JString ''Daily report''), (''nodes'', JArray [])])) 1) =
     Inl (JsError ''axios is not defined'' None) \<and>
   tasks (processTaskWithGemini refusedWorld oneTaskStore 1 ''water the plants''
            ''ann@example.org'') 1 =
     Some (annsTask\<lparr>status := ''failed'',
             result := Some (ErrorPayload ''axios is not defined''
                         (JsError ''axios is not defined'' None)
                         ''2025-10-01T08:00:00.000Z''),
             task_type := Some ''processing_error''\<rparr>) \<and>
   outcome (callGemini (model_api downWorld) ''water the plants''
              (selectModel ''water the plants'')) =
     Inl (JsError ''Failed to call Gemini API: fetch failed'' None) \<and>
   tasks (processTaskWithGemini downWorld oneTaskStore 1 ''water the plants''
            ''ann@example.org'') 1 =
     Some (annsTask\<lparr>status := ''failed'',
             result := Some (DeclinedPayload fallbackDecision ''google'' None
                         (JString ''Failed to process task with Gemini AI'')
                         ''2025-10-01T08:00:00.000Z''),
             task_type := Some ''not_automatable''\<rparr>) \<and>
   outcome (callGemini (model_api garbledWorld) ''water the plants''
              (selectModel ''water the plants'')) = Inr (Some ''not json'') \<and>
   isl (parseAndValidateResponse (json_parse garbledWorld) ''not json'') \<and>
   tasks (processTaskWithGemini garbledWorld oneTaskStore 1 ''water the plants''
            ''ann@example.org'') 1 =
     Some (annsTask\<lparr>status := ''failed'',
             result := Some (DeclinedPayload fallbackDecision ''google'' None
                         (JString ''Failed to process task with Gemini AI'')
                         ''2025-10-01T08:00:00.000Z''),
             task_type := Some ''not_automatable''\<rparr>)"
proof -
  let ?t1 = "annsTask\<lparr>status := ''in-progress'', task_type := Some ''gemini_processing''\<rparr>"
  let ?db1 = "oneTaskStore\<lparr>tasks := (tasks oneTaskStore)(1 \<mapsto> ?t1)\<rparr>"
  let ?flow = "Some (JObject [(''name'', JString ''Daily report''), (''nodes'', JArray [])])"
  let ?unbound = "JsError ''axios is not defined'' None"
  note m = markInProgress_oneTaskStore
  have g: "parseAndValidateResponse (json_parse garbledWorld) ''not json'' = Inl e \<Longrightarrow>
      tasks (processTaskWithGemini garbledWorld oneTaskStore 1 ''water the plants''
            ''ann@example.org'') 1 =
       Some (?t1\<lparr>status := ''failed'',
             result := Some (DeclinedPayload fallbackDecision ''google'' None
                         (JString ''Failed to process task with Gemini AI'')
                         (clock garbledWorld)),
             task_type := Some ''not_automatable''\<rparr>)" for e
    using pipeline_failure_payloads [where db = oneTaskStore and taskId = 1 and started = "?t1"
        and dbs = "?db1" and w = garbledWorld and td = "''water the plants''"
        and answer = "''not json''" and error = e and mail = "''ann@example.org''"]
      m callGemini_garbledWorld [of "''water the plants''"]
    by blast
  have gl: "isl (parseAndValidateResponse (json_parse garbledWorld) ''not json'')"
    using parse_garbled by (simp add: garbledWorld_def)
  then obtain e where "parseAndValidateResponse (json_parse garbledWorld) ''not json'' = Inl e"
    by (cases "parseAndValidateResponse (json_parse garbledWorld) ''not json''") simp_all
  from g [OF this] have 3:
    "tasks (processTaskWithGemini garbledWorld oneTaskStore 1 ''water the plants''
            ''ann@example.org'') 1 =
     Some (annsTask\<lparr>status := ''failed'',
             result := Some (DeclinedPayload fallbackDecision ''google'' None
                         (JString ''Failed to process task with Gemini AI'')
                         ''2025-10-01T08:00:00.000Z''),
             task_type := Some ''not_automatable''\<rparr>)"
    by (simp add: garbledWorld_def)
  have "tasks (processTaskWithGemini downWorld oneTaskStore 1 ''water the plants''
            ''ann@example.org'') 1 =
       Some (?t1\<lparr>status := ''failed'',
             result := Some (DeclinedPayload fallbackDecision ''google'' None
                         (JString ''Failed to process task with Gemini AI'')
                         (clock downWorld)),
             task_type := Some ''not_automatable''\<rparr>)"
    using pipeline_failure_payloads [where db = oneTaskStore and taskId = 1 and started = "?t1"
        and dbs = "?db1" and w = downWorld and td = "''water the plants''"
        and error = "JsError ''Failed to call Gemini API: fetch failed'' None"
        and mail = "''ann@example.org''"]
      m callGemini_downWorld [of "''water the plants''"]
    by blast
  then have 2:
    "tasks (processTaskWithGemini downWorld oneTaskStore 1 ''water the plants''
            ''ann@example.org'') 1 =
     Some (annsTask\<lparr>status := ''failed'',
             result := Some (DeclinedPayload fallbackDecision ''google'' None
                         (JString ''Failed to process task with Gemini AI'')
                         ''2025-10-01T08:00:00.000Z''),
             task_type := Some ''not_automatable''\<rparr>)"
    by (simp add: downWorld_def)
  have p: "success (processTask (model_api refusedWorld) (json_parse refusedWorld)
              ''water the plants'') \<and>
      getProp (gr_result (processTask (model_api refusedWorld) (json_parse refusedWorld)
                 ''water the plants'')) ''automatable'' = Inr (Some (JBool True)) \<and>
      truthy (Some (JBool True)) \<and>
      getProp (gr_result (processTask (model_api refusedWorld) (json_parse refusedWorld)
                 ''water the plants'')) ''workflow'' = Inr ?flow"
    by (simp add: processTask_refusedWorld getProp_def)
  have "tasks (processTaskWithGemini refusedWorld oneTaskStore 1 ''water the plants''
            ''ann@example.org'') 1 =
       Some (?t1\<lparr>status := ''failed'',
             result := Some (ErrorPayload (message ?unbound) ?unbound (clock refusedWorld)),
             task_type := Some ''processing_error''\<rparr>)"
    using pipeline_failure_payloads [where db = oneTaskStore and taskId = 1 and started = "?t1"
        and dbs = "?db1" and w = refusedWorld and td = "''water the plants''"
        and a = "Some (JBool True)" and flow = "?flow" and error = "?unbound"
        and mail = "''ann@example.org''"]
      m p dispatch_refusedWorld
    by blast
  then have 1:
    "tasks (processTaskWithGemini refusedWorld oneTaskStore 1 ''water the plants''
            ''ann@example.org'') 1 =
     Some (annsTask\<lparr>status := ''failed'',
             result := Some (ErrorPayload ''axios is not defined'' ?unbound
                         ''2025-10-01T08:00:00.000Z''),
             task_type := Some ''processing_error''\<rparr>)"
    by (simp add: refusedWorld_def)
  show ?thesis
    using m dispatch_refusedWorld 1 callGemini_downWorld [of "''water the plants''"] 2
      callGemini_garbledWorld [of "''water the plants''"] gl 3
    by blast
qed

subsection \<open>The claim on the result and the status\<close>

text \<open>
  C3 as it is worded fails at the status patch. The one-task store satisfies the
  equivalence; its owner patches the pending task to \<open>completed\<close>; the task is then
  completed with a null result.
\<close>

theorem patchStatus_result_counterexample:
  "consistent oneTaskStore \<and>
   patchStatus oneTaskStore ''ann@example.org'' 1 ''completed'' =
     (TaskResponse 200 (annsTask\<lparr>status := ''completed''\<rparr>),
      oneTaskStore\<lparr>tasks := (tasks oneTaskStore)(1 \<mapsto> annsTask\<lparr>status := ''completed''\<rparr>)\<rparr>) \<and>
   status (annsTask\<lparr>status := ''completed''\<rparr>) = ''completed'' \<and>
   result (annsTask\<lparr>status := ''completed''\<rparr>) = None \<and>
   \<not> resultMatchesStatus (annsTask\<lparr>status := ''completed''\<rparr>) \<and>
   \<not> consistent (snd (patchStatus oneTaskStore ''ann@example.org'' 1 ''completed''))"
proof -
  have p: "patchStatus oneTaskStore ''ann@example.org'' 1 ''completed'' =
     (TaskResponse 200 (annsTask\<lparr>status := ''completed''\<rparr>),
      oneTaskStore\<lparr>tasks := (tasks oneTaskStore)(1 \<mapsto> annsTask\<lparr>status := ''completed''\<rparr>)\<rparr>)"
    by (simp add: patchStatus_def findUnique_def prismaUpdate_def oneTaskStore_eq annsTask_def)
  have r: "\<not> resultMatchesStatus (annsTask\<lparr>status := ''completed''\<rparr>)"
    by (simp add: resultMatchesStatus_def annsTask_def)
  have "\<not> consistent (snd (patchStatus oneTaskStore ''ann@example.org'' 1 ''completed''))"
    unfolding p snd_conv
    using consistent_update_iff [OF consistent_oneTaskStore] r by simp
  then show ?thesis
    using consistent_oneTaskStore p r by (simp add: annsTask_def)
qed

text \<open>
  C3, amended. For every task and every store, each write leaves the written task as
  follows and every other task as it was. The write of a creation and the reset of a retry
  set the status to pending and the result to null; the terminal write of a pipeline run sets
  the status to completed or failed and the result to a payload: after each of these three
  the result is non-null exactly when the status is completed or failed, whatever the store
  held before. The status patch and the first write of a pipeline run (in-progress) write the
  status and keep the result: after a patch the equivalence holds exactly when the new status
  is completed or failed for a task with a result and pending or in-progress for a task
  without one, and after the in-progress write exactly when the result was null before.
\<close>

theorem result_matches_status_per_write:
  "(\<forall>t dbc started.
      createTask db mail description uid = (TaskResponse 201 t, dbc, started) \<longrightarrow>
        tasks dbc (task_id t) = Some t \<and> status t = ''pending'' \<and> result t = None \<and>
        resultMatchesStatus t \<and> onlyChanges db dbc (task_id t)) \<and>
   (\<forall>code msg dbr started.
      retryTask db mail taskId = (MessageResponse code msg, dbr, started) \<longrightarrow>
        (\<exists>t'. tasks dbr taskId = Some t' \<and> status t' = ''pending'' \<and> result t' = None \<and>
              resultMatchesStatus t' \<and> onlyChanges db dbr taskId)) \<and>
   (\<forall>t. tasks db taskId = Some t \<longrightarrow>
      (\<exists>t'. tasks (afterInProgress w db taskId td) taskId = Some t' \<and>
            (status t' = ''completed'' \<or> status t' = ''failed'') \<and> result t' \<noteq> None \<and>
            resultMatchesStatus t' \<and> onlyChanges db (afterInProgress w db taskId td) taskId)) \<and>
   (\<forall>t. tasks db taskId = Some t \<longrightarrow>
      (\<exists>t'. tasks (processTaskWithGemini w db taskId td mail) taskId = Some t' \<and>
            (status t' = ''completed'' \<or> status t' = ''failed'') \<and> result t' \<noteq> None \<and>
            resultMatchesStatus t' \<and>
            onlyChanges db (processTaskWithGemini w db taskId td mail) taskId)) \<and>
   (\<forall>started dbs.
      markInProgress db taskId = Inr (started, dbs) \<longrightarrow>
        (\<exists>t. tasks db taskId = Some t \<and> tasks dbs taskId = Some started \<and>
             status started = ''in-progress'' \<and> result started = result t \<and>
             resultMatchesStatus started = (result t = None) \<and> onlyChanges db dbs taskId)) \<and>
   (\<forall>patched dbp.
      patchStatus db mail taskId newStatus = (TaskResponse 200 patched, dbp) \<longrightarrow>
        (\<exists>t. tasks db taskId = Some t \<and> patched = t\<lparr>status := newStatus\<rparr> \<and>
             tasks dbp taskId = Some patched \<and> result patched = result t \<and>
             resultMatchesStatus patched =
               ((result t \<noteq> None) = (newStatus = ''completed'' \<or> newStatus = ''failed'')) \<and>
             onlyChanges db dbp taskId))"
proof (intro conjI allI impI)
  fix t dbc started
  assume h: "createTask db mail description uid = (TaskResponse 201 t, dbc, started)"
  note c = createTask_write [OF h]
  show "tasks dbc (task_id t) = Some t" using c by (rule conjunct1)
  show "status t = ''pending''" using c by (elim conjE)
  show "result t = None" using c by (elim conjE)
  show "resultMatchesStatus t" using c by (elim conjE)
  show "onlyChanges db dbc (task_id t)" using c by (elim conjE)
next
  fix code msg dbr started
  assume "retryTask db mail taskId = (MessageResponse code msg, dbr, started)"
  then show "\<exists>t'. tasks dbr taskId = Some t' \<and> status t' = ''pending'' \<and> result t' = None \<and>
              resultMatchesStatus t' \<and> onlyChanges db dbr taskId"
    by (rule retryTask_write)
next
  fix t
  assume "tasks db taskId = Some t"
  then show "\<exists>t'. tasks (afterInProgress w db taskId td) taskId = Some t' \<and>
            (status t' = ''completed'' \<or> status t' = ''failed'') \<and> result t' \<noteq> None \<and>
            resultMatchesStatus t' \<and> onlyChanges db (afterInProgress w db taskId td) taskId"
    by (rule afterInProgress_write)
next
  fix t
  assume "tasks db taskId = Some t"
  then show "\<exists>t'. tasks (processTaskWithGemini w db taskId td mail) taskId = Some t' \<and>
            (status t' = ''completed'' \<or> status t' = ''failed'') \<and> result t' \<noteq> None \<and>
            resultMatchesStatus t' \<and>
            onlyChanges db (processTaskWithGemini w db taskId td mail) taskId"
    by (rule processTaskWithGemini_write)
next
  fix started dbs
  assume "markInProgress db taskId = Inr (started, dbs)"
  then show "\<exists>t. tasks db taskId = Some t \<and> tasks dbs taskId = Some started \<and>
             status started = ''in-progress'' \<and> result started = result t \<and>
             resultMatchesStatus started = (result t = None) \<and> onlyChanges db dbs taskId"
    by (rule markInProgress_write)
next
  fix patched dbp
  assume "patchStatus db mail taskId newStatus = (TaskResponse 200 patched, dbp)"
  then show "\<exists>t. tasks db taskId = Some t \<and> patched = t\<lparr>status := newStatus\<rparr> \<and>
             tasks dbp taskId = Some patched \<and> result patched = result t \<and>
             resultMatchesStatus patched =
               ((result t \<noteq> None) = (newStatus = ''completed'' \<or> newStatus = ''failed'')) \<and>
             onlyChanges db dbp taskId"
    by (rule patchStatus_write)
qed

theorem result_matches_status_per_write_witness:
  "createTask oneTaskStore ''ann@example.org'' ''feed the cat'' None =
     (TaskResponse 201 catTask,
      \<lparr>tasks = [1 \<mapsto> annsTask, 2 \<mapsto> catTask], nextId = 3\<rparr>,
      Some (2, ''feed the cat'', ''ann@example.org'')) \<and>
   resultMatchesStatus catTask \<and>
   retryTask oneTaskStore ''ann@example.org'' 1 =
     (MessageResponse 200 ''Task retry initiated with Gemini AI'',
      \<lparr>tasks = [1 \<mapsto> annsTask\<lparr>status := ''pending'', task_type := Some ''retry''\<rparr>],
       nextId = 2\<rparr>,
      Some (1, ''water the plants'', ''ann@example.org'')) \<and>
   (\<exists>t'. tasks \<lparr>tasks = [1 \<mapsto> annsTask\<lparr>status := ''pending'', task_type := Some ''retry''\<rparr>],
               nextId = 2\<rparr> 1 = Some t' \<and>
         status t' = ''pending'' \<and> result t' = None \<and> resultMatchesStatus t') \<and>
   tasks oneTaskStore 1 = Some annsTask \<and>
   (\<exists>t'. tasks (afterInProgress downWorld oneTaskStore 1 ''water the plants'') 1 = Some t' \<and>
         result t' \<noteq> None \<and> resultMatchesStatus t') \<and>
   (\<exists>t'. tasks (processTaskWithGemini downWorld oneTaskStore 1 ''water the plants''
                  ''ann@example.org'') 1 = Some t' \<and>
         result t' \<noteq> None \<and> resultMatchesStatus t') \<and>
   markInProgress oneTaskStore 1 =
     Inr (annsTask\<lparr>status := ''in-progress'', task_type := Some ''gemini_processing''\<rparr>,
          oneTaskStore\<lparr>tasks := (tasks oneTaskStore)(1 \<mapsto>
            annsTask\<lparr>status := ''in-progress'', task_type := Some ''gemini_processing''\<rparr>)\<rparr>) \<and>
   resultMatchesStatus
     (annsTask\<lparr>status := ''in-progress'', task_type := Some ''gemini_processing''\<rparr>) \<and>
   patchStatus oneTaskStore ''ann@example.org'' 1 ''in-progress'' =
     (TaskResponse 200 (annsTask\<lparr>status := ''in-progress''\<rparr>),
      oneTaskStore\<lparr>tasks := (tasks oneTaskStore)(1 \<mapsto> annsTask\<lparr>status := ''in-progress''\<rparr>)\<rparr>) \<and>
   resultMatchesStatus (annsTask\<lparr>status := ''in-progress''\<rparr>)"
proof -
  note w = result_matches_status_per_write [where db = oneTaskStore
      and mail = "''ann@example.org''" and description = "''feed the cat''" and uid = None
      and taskId = 1 and w = downWorld and td = "''water the plants''"
      and newStatus = "''in-progress''"]
  note c2 = conjunct2
  note w1 = w [THEN conjunct1, rule_format]
  note w2 = w [THEN c2, THEN conjunct1, rule_format]
  note w3 = w [THEN c2, THEN c2, THEN conjunct1, rule_format]
  note w4 = w [THEN c2, THEN c2, THEN c2, THEN conjunct1, rule_format]
  note w5 = w [THEN c2, THEN c2, THEN c2, THEN c2, THEN conjunct1, rule_format]
  note w6 = w [THEN c2, THEN c2, THEN c2, THEN c2, THEN c2, rule_format]
  have r: "result annsTask = None" by (simp add: annsTask_def)
  have 1: "resultMatchesStatus catTask"
    using w1 [OF createTask_catTask] by (elim conjE)
  from w2 [OF retryTask_oneTaskStore] obtain t2
    where "tasks \<lparr>tasks = [1 \<mapsto> annsTask\<lparr>status := ''pending'', task_type := Some ''retry''\<rparr>],
               nextId = 2\<rparr> 1 = Some t2"
      and "status t2 = ''pending''" and "result t2 = None" and "resultMatchesStatus t2"
    by (elim exE conjE)
  then have 2: "\<exists>t'. tasks \<lparr>tasks = [1 \<mapsto> annsTask\<lparr>status := ''pending'',
                 task_type := Some ''retry''\<rparr>], nextId = 2\<rparr> 1 = Some t' \<and>
         status t' = ''pending'' \<and> result t' = None \<and> resultMatchesStatus t'"
    by (intro exI [of _ t2] conjI)
  from w3 [OF tasks_oneTaskStore] obtain t3
    where "tasks (afterInProgress downWorld oneTaskStore 1 ''water the plants'') 1 = Some t3"
      and "result t3 \<noteq> None" and "resultMatchesStatus t3"
    by (elim exE conjE)
  then have 3: "\<exists>t'. tasks (afterInProgress downWorld oneTaskStore 1 ''water the plants'') 1 =
         Some t' \<and> result t' \<noteq> None \<and> resultMatchesStatus t'"
    by (intro exI [of _ t3] conjI)
  from w4 [OF tasks_oneTaskStore] obtain t4
    where "tasks (processTaskWithGemini downWorld oneTaskStore 1 ''water the plants''
                  ''ann@example.org'') 1 = Some t4"
      and "result t4 \<noteq> None" and "resultMatchesStatus t4"
    by (elim exE conjE)
  then have 4: "\<exists>t'. tasks (processTaskWithGemini downWorld oneTaskStore 1 ''water the plants''
                  ''ann@example.org'') 1 = Some t' \<and>
         result t' \<noteq> None \<and> resultMatchesStatus t'"
    by (intro exI [of _ t4] conjI)
  from w5 [OF markInProgress_oneTaskStore] obtain t5
    where t5: "tasks oneTaskStore 1 = Some t5"
      and m5: "resultMatchesStatus
          (annsTask\<lparr>status := ''in-progress'', task_type := Some ''gemini_processing''\<rparr>) =
          (result t5 = None)"
    by (elim exE conjE)
  have "t5 = annsTask" using t5 tasks_oneTaskStore by simp
  then have 5: "resultMatchesStatus
      (annsTask\<lparr>status := ''in-progress'', task_type := Some ''gemini_processing''\<rparr>)"
    using m5 r by simp
  from w6 [OF patchStatus_oneTaskStore] obtain t6
    where t6: "tasks oneTaskStore 1 = Some t6"
      and m6: "resultMatchesStatus (annsTask\<lparr>status := ''in-progress''\<rparr>) =
          ((result t6 \<noteq> None) =
           (''in-progress'' = ''completed'' \<or> ''in-progress'' = ''failed''))"
    by (elim exE conjE)
  have "t6 = annsTask" using t6 tasks_oneTaskStore by simp
  then have 6: "resultMatchesStatus (annsTask\<lparr>status := ''in-progress''\<rparr>)"
    using m6 r by simp
  show ?thesis
    by (intro conjI)
      (fact createTask_catTask 1 retryTask_oneTaskStore 2 tasks_oneTaskStore 3 4
        markInProgress_oneTaskStore 5 patchStatus_oneTaskStore 6)+
qed

section \<open>Task creation: proofs\<close>

lemma trim_eval1: "trim ''  water the plants '' = ''water the plants''"
  by (simp add: trim_def isSpace_def)

lemma trim_eval2: "trim '' ab  '' = ''ab''"
  by (simp add: trim_def isSpace_def)

lemma trim_Nil: "trim [] = []"
  by (simp add: trim_def)

text \<open>
  C8. For an authenticated email and a task text: when the trimmed text has at least 3
  characters, creation answers 201 with the task it stored under a fresh number, with status
  pending and a null result, and starts the pipeline for it; when the trimmed text is empty
  or shorter than 3, creation answers an error, the store is as before and no pipeline run
  is started.
\<close>

theorem createTask_contract:
  "(mail \<noteq> [] \<and> 3 \<le> length (trim text) \<longrightarrow>
      (\<exists>t db'. createTask db mail text uid =
                  (TaskResponse 201 t, db', Some (task_id t, trim text, mail)) \<and>
               task_id t = nextId db \<and> email t = mail \<and> task_text t = trim text \<and>
               status t = ''pending'' \<and> result t = None \<and>
               tasks db' (task_id t) = Some t)) \<and>
   (length (trim text) < 3 \<longrightarrow>
      (\<exists>code message. createTask db mail text uid = (ErrorResponse code message, db, None)))"
  by (auto simp: createTask_def prismaCreate_def Let_def trim_Nil)

theorem createTask_contract_witness:
  "''ann@example.org'' \<noteq> [] \<and> 3 \<le> length (trim ''  water the plants '') \<and>
   fst (createTask emptyStore ''ann@example.org'' ''  water the plants '' None) =
     TaskResponse 201
       \<lparr>task_id = 1, email = ''ann@example.org'', task_text = ''water the plants'',
        status = ''pending'', result = None, task_type = Some ''gemini_processing'',
        userId = None\<rparr> \<and>
   length (trim '' ab  '') < 3 \<and>
   createTask emptyStore ''ann@example.org'' '' ab  '' None =
     (ErrorResponse 400 ''Task content must be at least 3 characters long'', emptyStore, None)"
  using createTask_contract [of "''ann@example.org''" "''  water the plants ''" emptyStore None]
    createTask_contract [of "''ann@example.org''" "'' ab  ''" emptyStore None]
  by (simp add: trim_eval1 trim_eval2 createTask_def prismaCreate_def emptyStore_def Let_def)

end
